theory Spec2Isabelle
  imports Main "HOL-Library.Word"
begin

unbundle bit_operations_syntax

section \<open>Buffers, numbers and text\<close>

text \<open>
  A \<open>Buffer\<close> is a sequence of unsigned 8-bit values.  Reading an index outside the
  buffer yields \<open>undefined\<close> in JavaScript (it does not throw), which is \<open>None\<close> here.
  Storing a number into a buffer cell keeps its low eight bits.
\<close>

type_synonym byte = "8 word"
type_synonym buffer = "byte list"

definition buf_at :: "buffer \<Rightarrow> int \<Rightarrow> byte option" where
  "buf_at buf i = (if 0 \<le> i \<and> i < int (length buf) then Some (buf ! nat i) else None)"

text \<open>\<open>Number.prototype.toString()\<close> on integers: decimal digits, a leading minus sign.\<close>

definition digit_char :: "nat \<Rightarrow> char" where
  "digit_char d = char_of (48 + d)"

fun toString_nat :: "nat \<Rightarrow> string" where
  "toString_nat n =
     (if n < 10 then [digit_char n] else toString_nat (n div 10) @ [digit_char (n mod 10)])"

declare toString_nat.simps [simp del]

definition toString :: "int \<Rightarrow> string" where
  "toString i = (if i < 0 then CHR ''-'' # toString_nat (nat (- i)) else toString_nat (nat i))"

text \<open>
  \<open>Buffer.from(s, 'hex')\<close> of the runtime library: pairs of hexadecimal digits are
  decoded from the left, and decoding stops at the first pair that is not hexadecimal
  (a trailing single character is dropped).
\<close>

definition hex_value :: "char \<Rightarrow> nat option" where
  "hex_value c =
     (let k = (of_char c :: nat) in
      if 48 \<le> k \<and> k \<le> 57 then Some (k - 48)
      else if 65 \<le> k \<and> k \<le> 70 then Some (k - 55)
      else if 97 \<le> k \<and> k \<le> 102 then Some (k - 87)
      else None)"

fun hex_decode :: "string \<Rightarrow> buffer" where
  "hex_decode (a # b # rest) =
     (case (hex_value a, hex_value b) of
        (Some h, Some l) \<Rightarrow> of_nat (16 * h + l) # hex_decode rest
      | _ \<Rightarrow> [])"
| "hex_decode _ = []"

text \<open>
  \<open>Buffer.from(s, 'utf8')\<close>: a \<^typ>\<open>string\<close> is a sequence of 8-bit characters, so
  a JavaScript string is represented by its UTF-8 encoding and the conversion keeps
  the bytes.
\<close>

definition utf8_bytes :: "string \<Rightarrow> buffer" where
  "utf8_bytes s = map (\<lambda>c. of_nat (of_char c)) s"

section \<open>Base64 of the runtime library\<close>

text \<open>
  \<open>buf.toString('base64')\<close> and \<open>Buffer.from(s, 'base64')\<close> belong to the runtime
  library, not to this repository.  They are modelled as the standard base64 codec:
  the encoder emits four characters of the alphabet \<open>A-Z a-z 0-9 + /\<close> for three
  bytes and pads with \<open>=\<close>; the decoder reads up to the first \<open>=\<close>, skips characters
  outside the alphabet, and accepts \<open>-\<close> and \<open>_\<close> for \<open>+\<close> and \<open>/\<close>.
\<close>

definition b64_char :: "nat \<Rightarrow> char" where
  "b64_char n =
     (if n < 26 then char_of (65 + n)
      else if n < 52 then char_of (71 + n)
      else if n < 62 then char_of (n - 4)
      else if n = 62 then CHR ''+'' else CHR ''/'')"

fun sextets :: "buffer \<Rightarrow> nat list" where
  "sextets (a # b # c # rest) =
     [unat a div 4, (unat a mod 4) * 16 + unat b div 16,
      (unat b mod 16) * 4 + unat c div 64, unat c mod 64] @ sextets rest"
| "sextets [a, b] = [unat a div 4, (unat a mod 4) * 16 + unat b div 16, (unat b mod 16) * 4]"
| "sextets [a] = [unat a div 4, (unat a mod 4) * 16]"
| "sextets [] = []"

definition base64_encode :: "buffer \<Rightarrow> string" where
  "base64_encode bs =
     map b64_char (sextets bs) @ replicate ((3 - length bs mod 3) mod 3) (CHR ''='')"

definition b64_value :: "char \<Rightarrow> nat option" where
  "b64_value c =
     (let k = (of_char c :: nat) in
      if 65 \<le> k \<and> k \<le> 90 then Some (k - 65)
      else if 97 \<le> k \<and> k \<le> 122 then Some (k - 71)
      else if 48 \<le> k \<and> k \<le> 57 then Some (k + 4)
      else if c = CHR ''+'' \<or> c = CHR ''-'' then Some 62
      else if c = CHR ''/'' \<or> c = CHR ''_'' then Some 63
      else None)"

fun octets :: "nat list \<Rightarrow> buffer" where
  "octets (a # b # c # d # rest) =
     [of_nat (a * 4 + b div 16), of_nat ((b mod 16) * 16 + c div 4), of_nat ((c mod 4) * 64 + d)]
     @ octets rest"
| "octets [a, b, c] = [of_nat (a * 4 + b div 16), of_nat ((b mod 16) * 16 + c div 4)]"
| "octets [a, b] = [of_nat (a * 4 + b div 16)]"
| "octets _ = []"

definition base64_decode :: "string \<Rightarrow> buffer" where
  "base64_decode s = octets (List.map_filter b64_value (takeWhile (\<lambda>c. c \<noteq> CHR ''='') s))"

section \<open>URL-safe base64 (\<open>webSafe64\<close>, \<open>normal64\<close>)\<close>

text \<open>
  \<open>s.replace(/a/g, b)\<close> replaces every occurrence of one character;
  \<open>s.replace(/=+$/, '')\<close> removes the run of \<open>=\<close> at the end of the string.
\<close>

definition replace_all :: "char \<Rightarrow> char \<Rightarrow> string \<Rightarrow> string" where
  "replace_all a b s = map (\<lambda>c. if c = a then b else c) s"

definition strip_trailing :: "char \<Rightarrow> string \<Rightarrow> string" where
  "strip_trailing a s = rev (dropWhile (\<lambda>c. c = a) (rev s))"

definition webSafe64 :: "string \<Rightarrow> string" where
  "webSafe64 base64 =
     strip_trailing (CHR ''='')
       (replace_all (CHR ''/'') (CHR ''_'') (replace_all (CHR ''+'') (CHR ''-'') base64))"

definition normal64 :: "string \<Rightarrow> string" where
  "normal64 base64 =
     replace_all (CHR ''_'') (CHR ''/'') (replace_all (CHR ''-'') (CHR ''+'') base64)
     @ take ((3 * length base64) mod 4) ''==''"

section \<open>Errors and the transport\<close>

text \<open>
  Every rejection of the client is \<open>new Error(message)\<close>; one constructor stands for
  each message.  \<open>TransportFailure\<close> carries whatever the transport primitive rejected
  with, and \<open>TypeError\<close> is the runtime's exception for a call on \<open>undefined\<close> (its
  message is the runtime's own and is not modelled).
\<close>

datatype error =
    InvalidLength
  | InvalidResponseAPDU
  | FailedToSendAPDU
  | InvalidAPDUResponse
  | InvalidPrivateKeyLength
  | InvalidPinLength
  | WalletAlreadyInitialized
  | WalletNotInitialized
  | InvalidPinCode int
  | UnsupportedPinLength
  | PinBlocked
  | PinNotVerified
  | TimeoutTooShort
  | ConfirmationTimeExpired
  | TransportFailure string
  | TypeError


text \<open>
  The transport is the imported \<open>sign(requests, timeout)\<close>.  It either rejects
  (\<open>Inl\<close>) or resolves a response object whose \<open>signatureData\<close> may be missing.  The
  device behind it has a state of its own; the world pairs that state with the list of
  round trips made so far (request list, timeout, and what the transport answered).
\<close>

record sign_request =
  version :: string
  challenge :: string
  keyHandle :: string
  appId :: string

record sign_response =
  signatureData :: "string option"

type_synonym transport_reply = "string + sign_response"

type_synonym 'd transport = "sign_request list \<Rightarrow> int \<Rightarrow> 'd \<Rightarrow> transport_reply \<times> 'd"

record 'd world =
  device :: 'd
  trips :: "(sign_request list \<times> int \<times> transport_reply) list"

definition sign :: "'d transport \<Rightarrow> sign_request list \<Rightarrow> int \<Rightarrow> 'd world \<Rightarrow> transport_reply \<times> 'd world" where
  "sign tr reqs timeout w =
     (case tr reqs timeout (device w) of
        (reply, d) \<Rightarrow> (reply, \<lparr>device = d, trips = trips w @ [(reqs, timeout, reply)]\<rparr>))"

text \<open>
  \<open>p.then(f).catch(err => reject(err))\<close>: a rejection of \<open>p\<close> is passed on unchanged,
  a resolved value goes to \<open>f\<close>.
\<close>

definition andThen ::
  "(error + 'a) \<times> 'w \<Rightarrow> ('a \<Rightarrow> 'w \<Rightarrow> (error + 'b) \<times> 'w) \<Rightarrow> (error + 'b) \<times> 'w" where
  "andThen p f = (case p of (Inl err, w) \<Rightarrow> (Inl err, w) | (Inr x, w) \<Rightarrow> f x w)"

section \<open>The tunnel: \<open>sendAPDU\<close> (src/src/index.js)\<close>

definition xrpMagic :: buffer where
  "xrpMagic = [0x88, 0x77, 0x66, 0x55, 0x44, 0x33, 0x22, 0x11]"

definition signRequest :: "string \<Rightarrow> buffer \<Rightarrow> sign_request" where
  "signRequest origin apdu =
     \<lparr>version = ''U2F_V2'',
      challenge = webSafe64 (base64_encode (replicate 32 0)),
      keyHandle = webSafe64 (base64_encode (xrpMagic @ apdu)),
      appId = origin\<rparr>"

text \<open>
  What \<open>sendAPDU\<close> makes of the settled transport promise: the \<open>then\<close> callback for
  a resolved response, the \<open>catch\<close> callback for a rejection.
\<close>

definition sendAPDU_settle :: "transport_reply \<Rightarrow> error + buffer" where
  "sendAPDU_settle reply =
     (case reply of
        Inl err \<Rightarrow> Inl (TransportFailure err)
      | Inr response \<Rightarrow>
          (case signatureData response of
             Some sd \<Rightarrow>
               (let data = base64_decode (normal64 sd) in
                if length data < 2 then Inl InvalidResponseAPDU else Inr data)
           | None \<Rightarrow> Inl FailedToSendAPDU))"

definition sendAPDU ::
  "'d transport \<Rightarrow> string \<Rightarrow> buffer \<Rightarrow> int \<Rightarrow> 'd world \<Rightarrow> (error + buffer) \<times> 'd world" where
  "sendAPDU tr origin apdu timeout w =
     (case sign tr [signRequest origin apdu] timeout w of
        (reply, w') \<Rightarrow> (sendAPDU_settle reply, w'))"

section \<open>The operations (src/src/index.js)\<close>

text \<open>The status test \<open>response[length - 2] !== 0x90 || response[length - 1] !== 0x00\<close>.\<close>

definition status_not :: "buffer \<Rightarrow> byte \<Rightarrow> byte \<Rightarrow> bool" where
  "status_not response sw1 sw2 \<longleftrightarrow>
     buf_at response (int (length response) - 2) \<noteq> Some sw1
     \<or> buf_at response (int (length response) - 1) \<noteq> Some sw2"

text \<open>The test \<open>response[length - 2] === sw1 && response[length - 1] === sw2\<close>.\<close>

definition status_is :: "buffer \<Rightarrow> byte \<Rightarrow> byte \<Rightarrow> bool" where
  "status_is response sw1 sw2 \<longleftrightarrow>
     buf_at response (int (length response) - 2) = Some sw1
     \<and> buf_at response (int (length response) - 1) = Some sw2"

subsection \<open>\<open>getInfo\<close>\<close>

record xrp_info =
  wallet_version :: string
  walletInitialized :: bool
  pinVerified :: bool

definition getInfo_apdu :: buffer where
  "getInfo_apdu = [0x80, 0xC4, 0x00, 0x00]"

text \<open>
  \<open>response[i].toString()\<close> throws a TypeError when the read is \<open>undefined\<close>;
  \<open>undefined & mask\<close> is 0.
\<close>

definition getInfo_response :: "buffer \<Rightarrow> error + xrp_info" where
  "getInfo_response response =
     (if status_not response 0x90 0x00 then Inl InvalidAPDUResponse
      else if length response \<noteq> 10 then Inl InvalidAPDUResponse
      else
        (case (buf_at response 0, buf_at response 1) of
           (Some major, Some minor) \<Rightarrow>
             Inr \<lparr>wallet_version = toString (uint major) @ ''.'' @ toString (uint minor),
                  walletInitialized =
                    ((case buf_at response 2 of Some flags \<Rightarrow> flags AND 0x01 | None \<Rightarrow> 0) = 0x01),
                  pinVerified =
                    ((case buf_at response 2 of Some flags \<Rightarrow> flags AND 0x02 | None \<Rightarrow> 0) = 0x02)\<rparr>
         | _ \<Rightarrow> Inl TypeError))"

definition getInfo :: "'d transport \<Rightarrow> string \<Rightarrow> int \<Rightarrow> 'd world \<Rightarrow> (error + xrp_info) \<times> 'd world" where
  "getInfo tr origin timeout w =
     andThen (sendAPDU tr origin getInfo_apdu timeout w)
       (\<lambda>response w'. (getInfo_response response, w'))"

subsection \<open>\<open>getRandom\<close>\<close>

text \<open>\<open>length\<close> is a JavaScript number; the integers among them are modelled.\<close>

definition getRandom_apdu :: "int \<Rightarrow> buffer" where
  "getRandom_apdu len = [0x80, 0xC0, 0x00, 0x00, 0x00][4 := of_int len]"

definition getRandom_response :: "int \<Rightarrow> buffer \<Rightarrow> error + buffer" where
  "getRandom_response len response =
     (if status_not response 0x90 0x00 then Inl InvalidAPDUResponse
      else if int (length response) \<noteq> len + 2 then Inl InvalidAPDUResponse
      else Inr (take (length response - 2) response))"

definition getRandom ::
  "'d transport \<Rightarrow> string \<Rightarrow> int \<Rightarrow> int \<Rightarrow> 'd world \<Rightarrow> (error + buffer) \<times> 'd world" where
  "getRandom tr origin timeout len w =
     (if len = 0 \<or> len > 128 then (Inl InvalidLength, w)
      else andThen (sendAPDU tr origin (getRandom_apdu len) timeout w)
             (\<lambda>response w'. (getRandom_response len response, w')))"

subsection \<open>\<open>initWallet\<close> and \<open>wipeoutWallet\<close>\<close>

definition initWallet_apdu :: "buffer \<Rightarrow> buffer \<Rightarrow> buffer" where
  "initWallet_apdu privateKey pin =
     [0x80, 0x20, 0x00, 0x00, of_nat (1 + length pin + length privateKey), of_nat (length pin)]
     @ pin @ privateKey"

definition initWallet_response :: "buffer \<Rightarrow> error + unit" where
  "initWallet_response response =
     (if length response \<noteq> 2 then Inl InvalidAPDUResponse
      else if buf_at response 0 \<noteq> Some 0x90 \<or> buf_at response 1 \<noteq> Some 0x00 then
        (if buf_at response 0 = Some 0x6d \<and> buf_at response 1 = Some 0x00
         then Inl WalletAlreadyInitialized
         else Inl InvalidAPDUResponse)
      else Inr ())"

definition initWallet ::
  "'d transport \<Rightarrow> string \<Rightarrow> int \<Rightarrow> string \<Rightarrow> string \<Rightarrow> 'd world \<Rightarrow> (error + unit) \<times> 'd world" where
  "initWallet tr origin timeout privateKey pin w =
     (let privateKey = hex_decode privateKey; pin = utf8_bytes pin in
      if length privateKey \<noteq> 32 then (Inl InvalidPrivateKeyLength, w)
      else if length pin < 4 \<or> length pin > 32 then (Inl InvalidPinLength, w)
      else andThen (sendAPDU tr origin (initWallet_apdu privateKey pin) timeout w)
             (\<lambda>response w'. (initWallet_response response, w')))"

definition wipeoutWallet_apdu :: buffer where
  "wipeoutWallet_apdu = [0x80, 0xF0, 0x00, 0x00, 0x00]"

definition wipeoutWallet_response :: "buffer \<Rightarrow> error + unit" where
  "wipeoutWallet_response response =
     (if length response \<noteq> 2 then Inl InvalidAPDUResponse
      else if buf_at response 0 \<noteq> Some 0x90 \<or> buf_at response 1 \<noteq> Some 0x00 then
        (if buf_at response 0 = Some 0x6d \<and> buf_at response 1 = Some 0x00
         then Inl WalletNotInitialized
         else Inl InvalidAPDUResponse)
      else Inr ())"

definition wipeoutWallet :: "'d transport \<Rightarrow> string \<Rightarrow> int \<Rightarrow> 'd world \<Rightarrow> (error + unit) \<times> 'd world" where
  "wipeoutWallet tr origin timeout w =
     andThen (sendAPDU tr origin wipeoutWallet_apdu timeout w)
       (\<lambda>response w'. (wipeoutWallet_response response, w'))"

subsection \<open>\<open>getPinTriesLeft\<close> and \<open>verifyPin\<close>\<close>

definition getPinTriesLeft_apdu :: buffer where
  "getPinTriesLeft_apdu = [0x80, 0x22, 0x80, 0x00]"

text \<open>
  \<open>response[1] - 0xC0\<close> is a subtraction of JavaScript numbers: it can be negative.
  The read of index 1 comes after the test \<open>response.length !== 2\<close>, so it is in range.
\<close>

definition getPinTriesLeft_response :: "buffer \<Rightarrow> error + int" where
  "getPinTriesLeft_response response =
     (if length response \<noteq> 2 then Inl InvalidAPDUResponse
      else if buf_at response 0 \<noteq> Some 0x63 then
        (if buf_at response 0 = Some 0x6d \<and> buf_at response 1 = Some 0x00
         then Inl WalletNotInitialized
         else Inl InvalidAPDUResponse)
      else Inr (uint (response ! 1) - 0xC0))"

definition getPinTriesLeft :: "'d transport \<Rightarrow> string \<Rightarrow> int \<Rightarrow> 'd world \<Rightarrow> (error + int) \<times> 'd world" where
  "getPinTriesLeft tr origin timeout w =
     andThen (sendAPDU tr origin getPinTriesLeft_apdu timeout w)
       (\<lambda>response w'. (getPinTriesLeft_response response, w'))"

definition verifyPin_apdu :: "buffer \<Rightarrow> buffer" where
  "verifyPin_apdu pin = [0x80, 0x22, 0x00, 0x00, of_nat (length pin)] @ pin"

definition verifyPin_response ::
  "'d transport \<Rightarrow> string \<Rightarrow> int \<Rightarrow> buffer \<Rightarrow> 'd world \<Rightarrow> (error + unit) \<times> 'd world" where
  "verifyPin_response tr origin timeout response w =
     (if length response \<noteq> 2 then (Inl InvalidAPDUResponse, w)
      else if buf_at response 0 \<noteq> Some 0x90 \<or> buf_at response 1 \<noteq> Some 0x00 then
        (if buf_at response 0 = Some 0x6d \<and> buf_at response 1 = Some 0x00
           then (Inl WalletNotInitialized, w)
         else if buf_at response 0 = Some 0x69 \<and> buf_at response 1 = Some 0x82
           then andThen (getPinTriesLeft tr origin timeout w)
                  (\<lambda>triesLeft w'. (Inl (InvalidPinCode triesLeft), w'))
         else if buf_at response 0 = Some 0x67 \<and> buf_at response 1 = Some 0x00
           then (Inl UnsupportedPinLength, w)
         else if buf_at response 0 = Some 0x69 \<and> buf_at response 1 = Some 0x83
           then (Inl PinBlocked, w)
         else (Inl InvalidAPDUResponse, w))
      else (Inr (), w))"

definition verifyPin ::
  "'d transport \<Rightarrow> string \<Rightarrow> int \<Rightarrow> string \<Rightarrow> 'd world \<Rightarrow> (error + unit) \<times> 'd world" where
  "verifyPin tr origin timeout pin w =
     (let pin = utf8_bytes pin in
      if length pin < 4 \<or> length pin > 32 then (Inl InvalidPinLength, w)
      else andThen (sendAPDU tr origin (verifyPin_apdu pin) timeout w)
             (verifyPin_response tr origin timeout))"

subsection \<open>\<open>getPublicKey\<close>\<close>

definition getPublicKey_apdu :: buffer where
  "getPublicKey_apdu = [0x80, 0x40, 0x00, 0x00]"

definition getPublicKey_response :: "buffer \<Rightarrow> error + buffer" where
  "getPublicKey_response response =
     (if status_not response 0x90 0x00 then
        (if status_is response 0x6d 0x00 then Inl WalletNotInitialized
         else if status_is response 0x69 0x82 then Inl PinNotVerified
         else Inl InvalidAPDUResponse)
      else if length response \<noteq> 67 then Inl InvalidAPDUResponse
      else Inr (take (length response - 2) response))"

definition getPublicKey :: "'d transport \<Rightarrow> string \<Rightarrow> int \<Rightarrow> 'd world \<Rightarrow> (error + buffer) \<times> 'd world" where
  "getPublicKey tr origin timeout w =
     andThen (sendAPDU tr origin getPublicKey_apdu timeout w)
       (\<lambda>response w'. (getPublicKey_response response, w'))"

subsection \<open>\<open>signData\<close>\<close>

text \<open>
  The \<open>while (offset !== rawData.length)\<close> loop that cuts the payload into chunk
  frames.  Its exit test is an inequality, so the loop is a partial function; that it
  returns from \<open>offset = 0\<close> is proved below.
\<close>

partial_function (option) signData_loop :: "nat \<Rightarrow> buffer \<Rightarrow> buffer list \<Rightarrow> buffer list option" where
  "signData_loop offset rawData apdus =
     (if offset \<noteq> length rawData then
        (let maxChunkSize = 8;
             chunkSize = (if offset + maxChunkSize > length rawData
                          then length rawData - offset else maxChunkSize);
             apdu = [0x80, 0xF2, (if offset = 0 then 0x00 else 0x01), 0x00, of_nat chunkSize]
                    @ take chunkSize (drop offset rawData)
         in signData_loop (offset + chunkSize) rawData (apdus @ [apdu]))
      else Some apdus)"

definition signData_chunk_response :: "buffer \<Rightarrow> error + unit" where
  "signData_chunk_response response =
     (if length response \<noteq> 2 then Inl InvalidAPDUResponse
      else if buf_at response 0 \<noteq> Some 0x90 \<or> buf_at response 1 \<noteq> Some 0x00 then
        (if buf_at response 0 = Some 0x6d \<and> buf_at response 1 = Some 0x00
           then Inl WalletNotInitialized
         else if buf_at response 0 = Some 0x69 \<and> buf_at response 1 = Some 0x82
           then Inl PinNotVerified
         else Inl InvalidAPDUResponse)
      else Inr ())"

definition signData_finalize_apdu :: buffer where
  "signData_finalize_apdu = [0x80, 0xf2, 0x02, 0x00]"

definition signData_finalize_response :: "buffer \<Rightarrow> error + buffer" where
  "signData_finalize_response response =
     (if status_not response 0x90 0x00 then Inl InvalidAPDUResponse
      else Inr (take (length response - 2) response))"

text \<open>
  \<open>localCallback\<close> takes the next frame with \<open>apdus.shift()\<close>.  On an empty queue that
  is \<open>undefined\<close>, and \<open>Buffer.concat([xrpMagic, undefined])\<close> inside \<open>sendAPDU\<close> throws
  a TypeError before the transport is called.
\<close>

fun localCallback ::
  "'d transport \<Rightarrow> string \<Rightarrow> int \<Rightarrow> buffer list \<Rightarrow> 'd world \<Rightarrow> (error + buffer) \<times> 'd world" where
  "localCallback tr origin timeout [] w = (Inl TypeError, w)"
| "localCallback tr origin timeout (apdu # apdus) w =
     (case sendAPDU tr origin apdu timeout w of
        (Inl err, w1) \<Rightarrow> (Inl err, w1)
      | (Inr response, w1) \<Rightarrow>
          (case signData_chunk_response response of
             Inl err \<Rightarrow> (Inl err, w1)
           | Inr _ \<Rightarrow>
               if apdus = [] then
                 andThen (sendAPDU tr origin signData_finalize_apdu timeout w1)
                   (\<lambda>response w2. (signData_finalize_response response, w2))
               else localCallback tr origin timeout apdus w1))"

definition signData ::
  "'d transport \<Rightarrow> string \<Rightarrow> int \<Rightarrow> string \<Rightarrow> 'd world \<Rightarrow> ((error + buffer) \<times> 'd world) option" where
  "signData tr origin timeout dataToSign w =
     map_option (\<lambda>apdus. localCallback tr origin timeout apdus w)
       (signData_loop 0 (hex_decode dataToSign) [])"

section \<open>The variant with signing confirmation (src/unnamed/part_000)\<close>

text \<open>
  This variant of the client differs in \<open>sendAPDU\<close> (the decoded data carries a five-byte
  prefix \<open>01 00 00 00 00\<close> that is checked and removed) and in \<open>signData\<close> (a minimum
  timeout, chunks of 128 bytes, and a dedicated error on the finalize step).  Its
  definitions carry the suffix \<open>_v2\<close>.
\<close>

definition sendAPDU_settle_v2 :: "transport_reply \<Rightarrow> error + buffer" where
  "sendAPDU_settle_v2 reply =
     (case reply of
        Inl err \<Rightarrow> Inl (TransportFailure err)
      | Inr response \<Rightarrow>
          (case signatureData response of
             Some sd \<Rightarrow>
               (let data = base64_decode (normal64 sd) in
                if length data < 5 + 2 then Inl InvalidResponseAPDU
                else if buf_at data 0 \<noteq> Some 0x01 \<or> buf_at data 1 \<noteq> Some 0x00
                        \<or> buf_at data 2 \<noteq> Some 0x00 \<or> buf_at data 3 \<noteq> Some 0x00
                        \<or> buf_at data 4 \<noteq> Some 0x00
                  then Inl InvalidResponseAPDU
                else Inr (drop 5 data))
           | None \<Rightarrow> Inl FailedToSendAPDU))"

definition sendAPDU_v2 ::
  "'d transport \<Rightarrow> string \<Rightarrow> buffer \<Rightarrow> int \<Rightarrow> 'd world \<Rightarrow> (error + buffer) \<times> 'd world" where
  "sendAPDU_v2 tr origin apdu timeout w =
     (case sign tr [signRequest origin apdu] timeout w of
        (reply, w') \<Rightarrow> (sendAPDU_settle_v2 reply, w'))"

partial_function (option) signData_loop_v2 :: "nat \<Rightarrow> buffer \<Rightarrow> buffer list \<Rightarrow> buffer list option" where
  "signData_loop_v2 offset rawData apdus =
     (if offset \<noteq> length rawData then
        (let maxChunkSize = 128;
             chunkSize = (if offset + maxChunkSize > length rawData
                          then length rawData - offset else maxChunkSize);
             apdu = [0x80, 0xF2, (if offset = 0 then 0x00 else 0x01), 0x00, of_nat chunkSize]
                    @ take chunkSize (drop offset rawData)
         in signData_loop_v2 (offset + chunkSize) rawData (apdus @ [apdu]))
      else Some apdus)"

definition signData_finalize_response_v2 :: "buffer \<Rightarrow> error + buffer" where
  "signData_finalize_response_v2 response =
     (if status_not response 0x90 0x00 then
        (if buf_at response (int (length response) - 2) = Some 0x64
            \<or> buf_at response (int (length response) - 1) = Some 0x01
         then Inl ConfirmationTimeExpired
         else Inl InvalidAPDUResponse)
      else Inr (take (length response - 2) response))"

fun localCallback_v2 ::
  "'d transport \<Rightarrow> string \<Rightarrow> int \<Rightarrow> buffer list \<Rightarrow> 'd world \<Rightarrow> (error + buffer) \<times> 'd world" where
  "localCallback_v2 tr origin timeout [] w = (Inl TypeError, w)"
| "localCallback_v2 tr origin timeout (apdu # apdus) w =
     (case sendAPDU_v2 tr origin apdu timeout w of
        (Inl err, w1) \<Rightarrow> (Inl err, w1)
      | (Inr response, w1) \<Rightarrow>
          (case signData_chunk_response response of
             Inl err \<Rightarrow> (Inl err, w1)
           | Inr _ \<Rightarrow>
               if apdus = [] then
                 andThen (sendAPDU_v2 tr origin signData_finalize_apdu timeout w1)
                   (\<lambda>response w2. (signData_finalize_response_v2 response, w2))
               else localCallback_v2 tr origin timeout apdus w1))"

definition signData_v2 ::
  "'d transport \<Rightarrow> string \<Rightarrow> int \<Rightarrow> string \<Rightarrow> 'd world \<Rightarrow> ((error + buffer) \<times> 'd world) option" where
  "signData_v2 tr origin timeout dataToSign w =
     (if timeout < 60 then Some (Inl TimeoutTooShort, w)
      else map_option (\<lambda>apdus. localCallback_v2 tr origin timeout apdus w)
             (signData_loop_v2 0 (hex_decode dataToSign) []))"

section \<open>Vocabulary of the properties\<close>

text \<open>
  The frame layout \<open>80 ins p1 p2 len payload\<close> with \<open>len\<close> the number of payload bytes,
  and the two parameter bytes of a frame.
\<close>

definition length_prefixed :: "buffer \<Rightarrow> bool" where
  "length_prefixed apdu =
     (case apdu of
        cla # ins # p1 # p2 # len # payload \<Rightarrow> cla = 0x80 \<and> unat len = length payload
      | _ \<Rightarrow> False)"



text \<open>
  The chunk frame number \<open>i\<close> (counted from 0) of a payload: header \<open>80 F2 p1 00\<close> with
  \<open>p1 = 00\<close> on the first frame and \<open>01\<close> on the others, the count of payload bytes,
  and the next at most eight bytes of the payload.
\<close>

definition chunk_frame :: "buffer \<Rightarrow> nat \<Rightarrow> buffer" where
  "chunk_frame rawData i =
     [0x80, 0xF2, (if i = 0 then 0x00 else 0x01), 0x00, of_nat (min 8 (length rawData - 8 * i))]
     @ take 8 (drop (8 * i) rawData)"

text \<open>A chunk round trip that \<open>localCallback\<close> accepts: the reply settles to \<open>90 00\<close>.\<close>

definition chunk_trip_ok :: "transport_reply \<Rightarrow> bool" where
  "chunk_trip_ok reply =
     (case sendAPDU_settle reply of
        Inr response \<Rightarrow> signData_chunk_response response = Inr ()
      | Inl err \<Rightarrow> False)"

text \<open>
  A scripted device for concrete runs: it answers the round trips with the replies
  of its script in order, and times out when the script is exhausted.  \<open>answer\<close> is
  the reply that carries a response frame.
\<close>

definition scripted :: "transport_reply list transport" where
  "scripted reqs timeout script =
     (case script of [] \<Rightarrow> (Inl ''timeout'', []) | reply # rest \<Rightarrow> (reply, rest))"

definition answer :: "buffer \<Rightarrow> transport_reply" where
  "answer frame = Inr \<lparr>signatureData = Some (webSafe64 (base64_encode frame))\<rparr>"

section \<open>The base64 codec and its URL-safe form\<close>

lemma unat_byte_lt: "unat (a::byte) < 256"
  using unsigned_less [of a, where ?'a = nat] by simp

lemma of_char_b64_char:
  "n < 64 \<Longrightarrow> of_char (b64_char n) =
     (if n < 26 then 65 + n else if n < 52 then 71 + n else if n < 62 then n - 4
      else if n = 62 then 43 else (47::nat))"
  by (simp add: b64_char_def)

lemma b64_value_char: "n < 64 \<Longrightarrow> b64_value (b64_char n) = Some n"
proof -
  assume n: "n < 64"
  consider "n < 26" | "26 \<le> n" "n < 52" | "52 \<le> n" "n < 62" | "n = 62" | "n = 63"
    using n by linarith
  then show ?thesis
  proof cases
    case 1 then show ?thesis by (simp add: b64_value_def of_char_b64_char)
  next
    case 2 then show ?thesis by (simp add: b64_value_def of_char_b64_char)
  next
    case 3 then show ?thesis by (simp add: b64_value_def of_char_b64_char Let_def) arith
  next
    case 4 then show ?thesis by (simp add: b64_value_def b64_char_def)
  next
    case 5 then show ?thesis by (simp add: b64_value_def b64_char_def)
  qed
qed

lemma b64_char_plain:
  assumes "n < 64"
  shows "b64_char n \<noteq> CHR ''=''" and "b64_char n \<noteq> CHR ''-''" and "b64_char n \<noteq> CHR ''_''"
proof -
  have k: "of_char (b64_char n) \<noteq> (61::nat) \<and> of_char (b64_char n) \<noteq> (45::nat) \<and> of_char (b64_char n) \<noteq> (95::nat)"
    using assms by (simp add: of_char_b64_char) arith
  show "b64_char n \<noteq> CHR ''=''" using k by auto
  show "b64_char n \<noteq> CHR ''-''" using k by auto
  show "b64_char n \<noteq> CHR ''_''" using k by auto
qed

lemma sextets_lt: "n \<in> set (sextets bs) \<Longrightarrow> n < 64"
proof (induction bs rule: sextets.induct)
  case (1 a b c rest)
  have "unat a < 256" "unat b < 256" "unat c < 256"
    using unat_byte_lt [of a] unat_byte_lt [of b] unat_byte_lt [of c] by simp_all
  with 1 show ?case by auto
next
  case (2 a b)
  have "unat a < 256" "unat b < 256"
    using unat_byte_lt [of a] unat_byte_lt [of b] by simp_all
  with 2 show ?case by auto
next
  case (3 a)
  have "unat a < 256" using unat_byte_lt [of a] by simp
  with 3 show ?case by auto
qed simp

lemma length_sextets: "length (sextets bs) = (4 * length bs + 2) div 3"
  by (induction bs rule: sextets.induct) auto

lemma octets_sextets: "octets (sextets bs) = bs"
proof (induction bs rule: sextets.induct)
  case (1 a b c rest)
  have a: "unat a div 4 * 4 + (unat a mod 4 * 16 + unat b div 16) div 16 = unat a"
    using unat_byte_lt [of b] by simp
  have b: "(unat a mod 4 * 16 + unat b div 16) mod 16 * 16 + (unat b mod 16 * 4 + unat c div 64) div 4 = unat b"
    using unat_byte_lt [of c] unat_byte_lt [of b] by simp
  have c: "(unat b mod 16 * 4 + unat c div 64) mod 4 * 64 + unat c mod 64 = unat c"
    using unat_byte_lt [of c] by simp
  show ?case
    by (simp only: sextets.simps octets.simps append.simps a b c 1 of_nat_unat ucast_id)
next
  case (2 a b)
  have a: "unat a div 4 * 4 + (unat a mod 4 * 16 + unat b div 16) div 16 = unat a"
    using unat_byte_lt [of b] by simp
  have b: "(unat a mod 4 * 16 + unat b div 16) mod 16 * 16 + (unat b mod 16 * 4) div 4 = unat b"
    using unat_byte_lt [of b] by simp
  show ?case
    by (simp only: sextets.simps octets.simps append.simps a b of_nat_unat ucast_id)
next
  case (3 a)
  have a: "unat a div 4 * 4 + (unat a mod 4 * 16) div 16 = unat a"
    by simp
  show ?case
    by (simp only: sextets.simps octets.simps append.simps a of_nat_unat ucast_id)
qed simp


lemma strip_trailing_append:
  "\<forall>c \<in> set body. c \<noteq> a \<Longrightarrow> strip_trailing a (body @ replicate k a) = body"
proof -
  assume body: "\<forall>c \<in> set body. c \<noteq> a"
  have "dropWhile (\<lambda>c. c = a) (replicate k a @ rev body) = dropWhile (\<lambda>c. c = a) (rev body)"
    by (induction k) simp_all
  also have "\<dots> = rev body"
  proof (cases "rev body")
    case Nil
    then show ?thesis by simp
  next
    case (Cons x xs)
    then have "x \<in> set body" by (metis list.set_intros(1) set_rev)
    then have "x \<noteq> a" using body by blast
    then show ?thesis using Cons by simp
  qed
  finally show ?thesis
    by (simp add: strip_trailing_def)
qed

lemma pad_length:
  "take ((3 * ((4 * n + 2) div 3)) mod 4) ''=='' = replicate ((3 - n mod 3) mod 3) (CHR ''='')"
proof -
  obtain q r where n: "n = 3 * q + r" and r: "r < 3"
    by (metis mod_less_divisor mult_div_mod_eq zero_less_numeral)
  have m: "n mod 3 = r" using n r by simp
  consider "r = 0" | "r = 1" | "r = 2" using r by linarith
  then show ?thesis
  proof cases
    case 1
    have "(3 * ((4 * n + 2) div 3)) mod 4 = 0" using n 1 by presburger
    then show ?thesis using m 1 by simp
  next
    case 2
    have "(3 * ((4 * n + 2) div 3)) mod 4 = 2" using n 2 by presburger
    then show ?thesis using m 2 by (simp add: numeral_2_eq_2)
  next
    case 3
    have "(3 * ((4 * n + 2) div 3)) mod 4 = 1" using n 3 by presburger
    then show ?thesis using m 3 by simp
  qed
qed

lemma webSafe64_base64_encode:
  "webSafe64 (base64_encode bs) =
     replace_all (CHR ''/'') (CHR ''_'') (replace_all (CHR ''+'') (CHR ''-'') (map b64_char (sextets bs)))"
proof -
  let ?body = "replace_all (CHR ''/'') (CHR ''_'') (replace_all (CHR ''+'') (CHR ''-'') (map b64_char (sextets bs)))"
  have "b64_char n \<noteq> CHR ''=''" if "n \<in> set (sextets bs)" for n
    using that b64_char_plain(1) sextets_lt by blast
  then have "\<forall>c \<in> set ?body. c \<noteq> CHR ''=''"
    by (auto simp: replace_all_def; blast)
  then have "strip_trailing (CHR ''='') (?body @ replicate ((3 - length bs mod 3) mod 3) (CHR ''='')) = ?body"
    by (rule strip_trailing_append)
  then show ?thesis
    by (simp add: webSafe64_def base64_encode_def replace_all_def)
qed

lemma length_webSafe64_base64_encode:
  "length (webSafe64 (base64_encode bs)) = (4 * length bs + 2) div 3"
  by (simp add: webSafe64_base64_encode replace_all_def length_sextets)

lemma unreplace_b64_chars:
  "replace_all (CHR ''_'') (CHR ''/'') (replace_all (CHR ''-'') (CHR ''+'') (webSafe64 (base64_encode bs)))
     = map b64_char (sextets bs)"
proof -
  have "\<forall>n \<in> set (sextets bs). b64_char n \<noteq> CHR ''-'' \<and> b64_char n \<noteq> CHR ''_''"
    using b64_char_plain sextets_lt by blast
  then show ?thesis
    unfolding webSafe64_base64_encode replace_all_def
    by (induction "sextets bs" arbitrary: bs) (auto simp: map_idI)
qed

lemma normal64_webSafe64_encode: "normal64 (webSafe64 (base64_encode bs)) = base64_encode bs"
  unfolding normal64_def unreplace_b64_chars length_webSafe64_base64_encode pad_length
  by (simp add: base64_encode_def)

lemma map_filter_b64_value: "\<forall>n \<in> set ns. n < 64 \<Longrightarrow> List.map_filter b64_value (map b64_char ns) = ns"
  by (induction ns) (simp_all add: List.map_filter_simps b64_value_char)

lemma base64_decode_encode: "base64_decode (base64_encode bs) = bs"
proof -
  have "takeWhile (\<lambda>c. c \<noteq> CHR ''='') (base64_encode bs) = map b64_char (sextets bs)"
  proof (cases "(3 - length bs mod 3) mod 3")
    case 0
    then show ?thesis
      using b64_char_plain(1) sextets_lt by (auto simp: base64_encode_def)
  next
    case (Suc k)
    then show ?thesis
      using b64_char_plain(1) sextets_lt by (auto simp: base64_encode_def takeWhile_tail)
  qed
  then show ?thesis
    using sextets_lt by (simp add: base64_decode_def map_filter_b64_value octets_sextets)
qed

text \<open>
  C8.  For every byte buffer, the standard base64 text of the buffer survives
  \<open>webSafe64\<close> followed by \<open>normal64\<close> unchanged (the character mapping is undone
  and the stripped padding is restored), and so the text that arrives decodes to
  exactly the bytes that were encoded.
\<close>

theorem webSafe64_normal64_round_trip:
  "normal64 (webSafe64 (base64_encode bs)) = base64_encode bs
   \<and> base64_decode (normal64 (webSafe64 (base64_encode bs))) = bs"
  by (simp add: normal64_webSafe64_encode base64_decode_encode)

section \<open>Responses of the tunnel and of \<open>getInfo\<close>\<close>

lemma sign_trips:
  "sign tr reqs timeout w = (reply, w') \<Longrightarrow>
     tr reqs timeout (device w) = (reply, device w') \<and> trips w' = trips w @ [(reqs, timeout, reply)]"
  by (auto simp: sign_def split: prod.splits)

lemma sendAPDU_Inr_length: "sendAPDU tr origin apdu timeout w = (Inr response, w') \<Longrightarrow> 2 \<le> length response"
  by (auto simp: sendAPDU_def sendAPDU_settle_def Let_def split: prod.splits sum.splits option.splits if_splits)

lemma sendAPDU_scripted:
  "sendAPDU scripted origin apdu timeout \<lparr>device = answer frame # rest, trips = ts\<rparr> =
     (if length frame < 2 then Inl InvalidResponseAPDU else Inr frame,
      \<lparr>device = rest, trips = ts @ [([signRequest origin apdu], timeout, answer frame)]\<rparr>)"
  by (simp add: sendAPDU_def sign_def scripted_def sendAPDU_settle_def answer_def
      normal64_webSafe64_encode base64_decode_encode)

lemma sendAPDU_v2_scripted:
  "sendAPDU_v2 scripted origin apdu timeout
      \<lparr>device = answer (0x01 # 0x00 # 0x00 # 0x00 # 0x00 # frame) # rest, trips = ts\<rparr> =
     (if length frame < 2 then Inl InvalidResponseAPDU else Inr frame,
      \<lparr>device = rest,
       trips = ts @ [([signRequest origin apdu], timeout,
                      answer (0x01 # 0x00 # 0x00 # 0x00 # 0x00 # frame))]\<rparr>)"
  by (simp add: sendAPDU_v2_def sign_def scripted_def sendAPDU_settle_v2_def answer_def
      normal64_webSafe64_encode base64_decode_encode buf_at_def)

lemma two_last: "2 \<le> length (xs::'a list) \<Longrightarrow> \<exists>pre a b. xs = pre @ [a, b]"
proof -
  assume "2 \<le> length xs"
  then have "length (drop (length xs - 2) xs) = 2" by simp
  then obtain a b where "drop (length xs - 2) xs = [a, b]"
    by (metis (no_types, opaque_lifting) One_nat_def Suc_1 length_0_conv length_Suc_conv)
  then have "xs = take (length xs - 2) xs @ [a, b]"
    by (metis append_take_drop_id)
  then show ?thesis by blast
qed

lemma status_not_drop: "2 \<le> length response \<Longrightarrow> status_not response sw1 sw2 \<longleftrightarrow> drop (length response - 2) response \<noteq> [sw1, sw2]"
proof -
  assume len: "2 \<le> length response"
  from two_last [OF len] obtain pre a b where r: "response = pre @ [a, b]" by blast
  have i: "int (length (pre @ [a, b])) - 2 = int (length pre)" "int (length (pre @ [a, b])) - 1 = int (length pre) + 1"
    by simp_all
  show ?thesis
    unfolding r status_not_def i buf_at_def
    by (simp add: nth_append nat_add_distrib)
qed

lemma and1: "(x AND 1 = 1) = bit (x::byte) 0"
proof -
  have "x AND 1 = of_bool (odd x)" by (simp add: and_one_eq mod_2_eq_odd)
  then show ?thesis by (cases "odd x") (simp_all add: bit_0)
qed

lemma and2: "(x AND 2 = 2) = bit (x::byte) 1"
proof -
  have "x AND 2 = 2 * ((x div 2) AND 1)" using and_rec [of x 2] by simp
  also have "\<dots> = 2 * of_bool (odd (x div 2))" by (simp add: and_one_eq mod_2_eq_odd)
  also have "\<dots> = 2 * of_bool (bit x 1)"
    using bit_iff_odd [of x 1] by simp
  finally have eq: "x AND 2 = 2 * of_bool (bit x 1)" .
  show ?thesis
  proof (cases "bit x 1")
    case True
    then have "x AND 2 = 2" by (simp only: eq of_bool_eq mult_1_right)
    with True show ?thesis by blast
  next
    case False
    then have z: "x AND 2 = 0" by (simp only: eq of_bool_eq mult_zero_right)
    have "(0::byte) \<noteq> 2" by (simp add: bit_0)
    then have "x AND 2 \<noteq> 2" unfolding z .
    with False show ?thesis by blast
  qed
qed

lemma sendAPDU_Inr:
  "sendAPDU tr origin apdu timeout w = (Inr response, w') \<Longrightarrow>
     andThen (sendAPDU tr origin apdu timeout w) f = f response w'"
  by (simp add: andThen_def)

lemma getInfo_response_eq:
  assumes "2 \<le> length response"
  shows "getInfo_response response =
     (if length response = 10 \<and> drop 8 response = [0x90, 0x00]
      then Inr \<lparr>wallet_version = toString (uint (response ! 0)) @ ''.'' @ toString (uint (response ! 1)),
                walletInitialized = bit (response ! 2) 0,
                pinVerified = bit (response ! 2) 1\<rparr>
      else Inl InvalidAPDUResponse)"
proof (cases "length response = 10")
  case True
  show ?thesis
    using True by (simp add: getInfo_response_def status_not_drop [OF assms] buf_at_def and1 and2)
next
  case False
  then show ?thesis by (simp add: getInfo_response_def)
qed

text \<open>
  C9.  Whatever response frame \<open>sendAPDU\<close> resolves for the info frame, \<open>getInfo\<close>
  resolves the record of version \<open>byte0.byte1\<close>, initialized = bit 0 of byte 2 and
  pin-verified = bit 1 of byte 2 when the frame is exactly 10 bytes long and ends in
  \<open>90 00\<close>, and rejects it otherwise.  The witness is the response
  \<open>[1, 2, 3, ..., 0x90, 0x00]\<close>, which decodes to version 1.2, initialized, verified.
\<close>

theorem getInfo_decodes_response:
  assumes "sendAPDU tr origin getInfo_apdu timeout w = (Inr response, w')"
  shows "getInfo tr origin timeout w =
     (if length response = 10 \<and> drop 8 response = [0x90, 0x00]
      then Inr \<lparr>wallet_version = toString (uint (response ! 0)) @ ''.'' @ toString (uint (response ! 1)),
                walletInitialized = bit (response ! 2) 0,
                pinVerified = bit (response ! 2) 1\<rparr>
      else Inl InvalidAPDUResponse, w')"
  unfolding getInfo_def sendAPDU_Inr [OF assms]
  using getInfo_response_eq [OF sendAPDU_Inr_length [OF assms]] by simp

lemma scripted_getInfo_send:
  "sendAPDU scripted ''https://wallet.example'' getInfo_apdu 30
      \<lparr>device = [answer [1, 2, 3, 0, 0, 0, 0, 0, 0x90, 0x00]], trips = []\<rparr>
    = (Inr [1, 2, 3, 0, 0, 0, 0, 0, 0x90, 0x00],
       \<lparr>device = [],
        trips = [([signRequest ''https://wallet.example'' getInfo_apdu], 30,
                  answer [1, 2, 3, 0, 0, 0, 0, 0, 0x90, 0x00])]\<rparr>)"
  by (simp add: sendAPDU_scripted)

theorem getInfo_decodes_response_witness:
  "getInfo scripted ''https://wallet.example'' 30
      \<lparr>device = [answer [1, 2, 3, 0, 0, 0, 0, 0, 0x90, 0x00]], trips = []\<rparr>
    = (Inr \<lparr>wallet_version = ''1.2'', walletInitialized = True, pinVerified = True\<rparr>,
       \<lparr>device = [],
        trips = [([signRequest ''https://wallet.example'' getInfo_apdu], 30,
                  answer [1, 2, 3, 0, 0, 0, 0, 0, 0x90, 0x00])]\<rparr>)"
proof -
  have t: "toString 1 = ''1''" "toString 2 = ''2''"
    by code_simp+
  have b: "bit (3::byte) 0" "bit (3::byte) 1"
    by code_simp+
  show ?thesis
    using getInfo_decodes_response [OF scripted_getInfo_send] by (simp add: t b)
qed

text \<open>
  C10.  Every response frame that \<open>sendAPDU\<close> resolves has at least two bytes, so the
  two status reads at \<open>length - 2\<close> and \<open>length - 1\<close>, which every operation performs on
  it, are defined and compare real bytes of the frame.  \<open>getInfo\<close> rejects a frame
  that is not 10 bytes long without reading its payload, on a frame of 10 bytes the
  reads of bytes 0, 1 and 2 are defined, and so \<open>getInfo\<close> never meets an undefined
  payload byte.
\<close>

theorem sendAPDU_response_in_bounds:
  assumes "sendAPDU tr origin apdu timeout w = (Inr response, w')"
  shows "2 \<le> length response
     \<and> buf_at response (int (length response) - 2) \<noteq> None
     \<and> buf_at response (int (length response) - 1) \<noteq> None
     \<and> (status_not response sw1 sw2 \<longleftrightarrow>
          response ! (length response - 2) \<noteq> sw1 \<or> response ! (length response - 1) \<noteq> sw2)
     \<and> (length response \<noteq> 10 \<longrightarrow> getInfo_response response = Inl InvalidAPDUResponse)
     \<and> (length response = 10 \<longrightarrow>
          buf_at response 0 \<noteq> None \<and> buf_at response 1 \<noteq> None \<and> buf_at response 2 \<noteq> None)
     \<and> getInfo_response response \<noteq> Inl TypeError"
proof -
  have len: "2 \<le> length response" by (rule sendAPDU_Inr_length [OF assms])
  have "getInfo_response response \<noteq> Inl TypeError"
    by (simp add: getInfo_response_eq [OF len])
  moreover have "length response \<noteq> 10 \<longrightarrow> getInfo_response response = Inl InvalidAPDUResponse"
    by (simp add: getInfo_response_def)
  moreover have "status_not response sw1 sw2 \<longleftrightarrow>
          response ! (length response - 2) \<noteq> sw1 \<or> response ! (length response - 1) \<noteq> sw2"
  proof -
    have "nat (int (length response) - 2) = length response - 2"
      "nat (int (length response) - 1) = length response - 1"
      by simp_all
    moreover have "0 \<le> int (length response) - 2" "response \<noteq> []"
      using len by auto
    ultimately show ?thesis
      by (simp add: status_not_def buf_at_def)
  qed
  ultimately show ?thesis using len by (auto simp: buf_at_def)
qed

theorem sendAPDU_response_in_bounds_witness:
  "2 \<le> length [1, 2, 3, 0, 0, 0, 0, 0, 0x90, 0x00 :: byte]
   \<and> buf_at [1, 2, 3, 0, 0, 0, 0, 0, 0x90, 0x00] (int (length [1, 2, 3, 0, 0, 0, 0, 0, 0x90, 0x00 :: byte]) - 2) \<noteq> None
   \<and> buf_at [1, 2, 3, 0, 0, 0, 0, 0, 0x90, 0x00] (int (length [1, 2, 3, 0, 0, 0, 0, 0, 0x90, 0x00 :: byte]) - 1) \<noteq> None
   \<and> buf_at [1, 2, 3, 0, 0, 0, 0, 0, 0x90, 0x00 :: byte] 2 \<noteq> None
   \<and> getInfo_response [1, 2, 3, 0, 0, 0, 0, 0, 0x90, 0x00] \<noteq> Inl TypeError"
  using sendAPDU_response_in_bounds [OF scripted_getInfo_send] by simp

section \<open>The tunnel request and its outcomes\<close>

lemma challenge_text: "webSafe64 (base64_encode (replicate 32 0)) = replicate 43 (CHR ''A'')"
  by code_simp



section \<open>\<open>getRandom\<close>\<close>

lemma getRandom_rejects_without_transport:
  "len = 0 \<or> 128 < len \<Longrightarrow> getRandom tr origin timeout len w = (Inl InvalidLength, w)"
  by (simp add: getRandom_def)

lemma getRandom_in_range:
  assumes "1 \<le> len" "len \<le> 128"
    and "sendAPDU tr origin (getRandom_apdu len) timeout w = (Inr response, w')"
  shows "getRandom tr origin timeout len w =
     (if int (length response) = len + 2 \<and> drop (nat len) response = [0x90, 0x00]
      then Inr (take (nat len) response) else Inl InvalidAPDUResponse, w')"
proof -
  have len2: "2 \<le> length response" by (rule sendAPDU_Inr_length [OF assms(3)])
  have "getRandom_response len response =
     (if int (length response) = len + 2 \<and> drop (nat len) response = [0x90, 0x00]
      then Inr (take (nat len) response) else Inl InvalidAPDUResponse)"
  proof (cases "int (length response) = len + 2")
    case True
    then have "length response - 2 = nat len" by simp
    then show ?thesis
      using True by (simp add: getRandom_response_def status_not_drop [OF len2])
  next
    case False
    then show ?thesis by (simp add: getRandom_response_def)
  qed
  then show ?thesis
    using assms by (simp add: getRandom_def andThen_def)
qed

text \<open>
  C4.  The length check of \<open>getRandom\<close> is \<open>length === 0 || length > 128\<close>; a
  negative length passes it.  At \<open>length = -1\<close> the client does not fail with
  "Invalid length.": it sends the frame \<open>80 C0 00 00 FF\<close> to the transport and rejects
  the answer afterwards.
\<close>

theorem getRandom_negative_length_reaches_transport:
  "getRandom scripted ''https://wallet.example'' 30 (- 1)
      \<lparr>device = [answer [0x90, 0x00]], trips = []\<rparr>
   = (Inl InvalidAPDUResponse,
      \<lparr>device = [],
       trips = [([signRequest ''https://wallet.example'' [0x80, 0xC0, 0x00, 0x00, 0xFF]], 30,
                 answer [0x90, 0x00])]\<rparr>)"
proof -
  have apdu: "getRandom_apdu (- 1) = [0x80, 0xC0, 0x00, 0x00, 0xFF]"
    by (simp add: getRandom_apdu_def)
  show ?thesis
    by (simp add: getRandom_def apdu andThen_def sendAPDU_scripted
        getRandom_response_def status_not_def buf_at_def)
qed

section \<open>\<open>verifyPin\<close> and the tries-left follow-up\<close>

lemma sendAPDU_trips:
  "sendAPDU tr origin apdu timeout w = (outcome, w') \<Longrightarrow>
     \<exists>reply. trips w' = trips w @ [([signRequest origin apdu], timeout, reply)]
        \<and> outcome = sendAPDU_settle reply"
  by (auto simp: sendAPDU_def dest: sign_trips split: prod.splits)






section \<open>The finalize step of the confirmation variant\<close>

text \<open>
  C3.  The finalize handler of the confirmation variant tests
  \<open>sw1 === 0x64 || sw2 === 0x01\<close>.  A finalize response with status \<open>69 01\<close> (or
  \<open>64 00\<close>) is therefore reported as "Transaction signing confirmation time expired."
  and not as "Invalid APDU response.".
\<close>

theorem signData_v2_finalize_status_6901:
  "signData_v2 scripted ''https://wallet.example'' 60 ''00''
      \<lparr>device = [answer [0x01, 0x00, 0x00, 0x00, 0x00, 0x90, 0x00],
                 answer [0x01, 0x00, 0x00, 0x00, 0x00, 0x69, 0x01]], trips = []\<rparr>
   = Some (Inl ConfirmationTimeExpired,
      \<lparr>device = [],
       trips = [([signRequest ''https://wallet.example'' [0x80, 0xF2, 0x00, 0x00, 0x01, 0x00]], 60,
                 answer [0x01, 0x00, 0x00, 0x00, 0x00, 0x90, 0x00]),
                ([signRequest ''https://wallet.example'' [0x80, 0xF2, 0x02, 0x00]], 60,
                 answer [0x01, 0x00, 0x00, 0x00, 0x00, 0x69, 0x01])]\<rparr>)
   \<and> signData_finalize_response_v2 [0x69, 0x01] = Inl ConfirmationTimeExpired
   \<and> signData_finalize_response_v2 [0x64, 0x00] = Inl ConfirmationTimeExpired"
proof -
  have loop: "signData_loop_v2 0 (hex_decode ''00'') [] = Some [[0x80, 0xF2, 0x00, 0x00, 0x01, 0x00]]"
    by (simp add: signData_loop_v2.simps hex_value_def)
  have run: "localCallback_v2 scripted ''https://wallet.example'' 60 [[0x80, 0xF2, 0x00, 0x00, 0x01, 0x00]]
      \<lparr>device = [answer [0x01, 0x00, 0x00, 0x00, 0x00, 0x90, 0x00],
                 answer [0x01, 0x00, 0x00, 0x00, 0x00, 0x69, 0x01]], trips = []\<rparr>
   = (Inl ConfirmationTimeExpired,
      \<lparr>device = [],
       trips = [([signRequest ''https://wallet.example'' [0x80, 0xF2, 0x00, 0x00, 0x01, 0x00]], 60,
                 answer [0x01, 0x00, 0x00, 0x00, 0x00, 0x90, 0x00]),
                ([signRequest ''https://wallet.example'' [0x80, 0xF2, 0x02, 0x00]], 60,
                 answer [0x01, 0x00, 0x00, 0x00, 0x00, 0x69, 0x01])]\<rparr>)"
    by (simp add: sendAPDU_v2_scripted signData_chunk_response_def buf_at_def andThen_def
        signData_finalize_apdu_def signData_finalize_response_v2_def status_not_def)
  have handler: "signData_finalize_response_v2 [0x69, 0x01] = Inl ConfirmationTimeExpired"
    "signData_finalize_response_v2 [0x64, 0x00] = Inl ConfirmationTimeExpired"
    by (simp_all add: signData_finalize_response_v2_def status_not_def buf_at_def)
  show ?thesis
    by (simp only: signData_v2_def loop option.map run handler) simp
qed

section \<open>The chunk frames of \<open>signData\<close>\<close>

text \<open>
  The chunking loop returns from \<open>offset = 0\<close> for every payload, with one frame for
  each started block of eight bytes.
\<close>

lemma signData_loop_exit: "signData_loop (length raw) raw acc = Some acc"
  by (subst signData_loop.simps) simp

lemma signData_loop_from:
  assumes "8 * k \<le> length raw"
  shows "signData_loop (8 * k) raw acc = Some (acc @ map (chunk_frame raw) [k..<(length raw + 7) div 8])"
  using assms
proof (induction "(length raw + 7) div 8 - k" arbitrary: k acc)
  case 0
  then have "length raw = 8 * k" by arith
  moreover have "(length raw + 7) div 8 \<le> k" using 0 by simp
  ultimately show ?case using signData_loop_exit [of raw acc] by simp
next
  case (Suc n)
  have kN: "k < (length raw + 7) div 8" using Suc.hyps(2) by arith
  then have lt: "8 * k < length raw" by arith
  show ?case
  proof (cases "8 * k + 8 \<le> length raw")
    case True
    have step: "signData_loop (8 * k) raw acc = signData_loop (8 * Suc k) raw (acc @ [chunk_frame raw k])"
      using True lt by (subst signData_loop.simps) (simp add: chunk_frame_def Let_def add.commute)
    have n: "n = (length raw + 7) div 8 - Suc k" using Suc.hyps(2) by arith
    have "signData_loop (8 * Suc k) raw (acc @ [chunk_frame raw k]) =
        Some ((acc @ [chunk_frame raw k]) @ map (chunk_frame raw) [Suc k..<(length raw + 7) div 8])"
      using True by (intro Suc.hyps(1) [OF n]) simp
    then show ?thesis
      using kN by (simp add: step upt_conv_Cons)
  next
    case False
    have step: "signData_loop (8 * k) raw acc = signData_loop (length raw) raw (acc @ [chunk_frame raw k])"
      using False lt by (subst signData_loop.simps) (simp add: chunk_frame_def Let_def)
    have N: "(length raw + 7) div 8 = Suc k" using False lt by arith
    show ?thesis
      by (simp add: step signData_loop_exit N)
  qed
qed

lemma signData_loop_total:
  "signData_loop 0 raw [] = Some (map (chunk_frame raw) [0..<(length raw + 7) div 8])"
  using signData_loop_from [of 0 raw "[]"] by simp

section \<open>The round trips of \<open>signData\<close>\<close>

text \<open>
  The round trips that \<open>localCallback\<close> adds to the world are the frames of the queue
  followed by the finalize frame, cut after some frame.  Every round trip before the
  last was an accepted chunk round trip; the last one is either a refused chunk round
  trip, and the call rejects, or the finalize round trip, which decides the result.
\<close>

lemma signData_chunk_response_eq:
  "signData_chunk_response response =
     (if response = [0x90, 0x00] then Inr ()
      else if response = [0x6d, 0x00] then Inl WalletNotInitialized
      else if response = [0x69, 0x82] then Inl PinNotVerified
      else Inl InvalidAPDUResponse)"
proof (cases response)
  case Nil
  then show ?thesis by (simp add: signData_chunk_response_def)
next
  case (Cons a r1)
  note c1 = this
  show ?thesis
  proof (cases r1)
    case Nil
    then show ?thesis using c1 by (simp add: signData_chunk_response_def)
  next
    case (Cons b r2)
    then show ?thesis using c1
      by (cases r2) (auto simp: signData_chunk_response_def buf_at_def)
  qed
qed

lemma chunk_trip_ok_iff: "chunk_trip_ok reply \<longleftrightarrow> sendAPDU_settle reply = Inr [0x90, 0x00]"
  by (cases "sendAPDU_settle reply") (simp_all add: chunk_trip_ok_def signData_chunk_response_eq)

lemma localCallback_trace:
  assumes "apdus \<noteq> []" and "localCallback tr origin timeout apdus w = (res, w')"
  shows "\<exists>replies. replies \<noteq> [] \<and> length replies \<le> length apdus + 1
     \<and> trips w' = trips w @ map (\<lambda>(apdu, reply). ([signRequest origin apdu], timeout, reply))
                               (zip (apdus @ [signData_finalize_apdu]) replies)
     \<and> (\<forall>reply \<in> set (butlast replies). chunk_trip_ok reply)
     \<and> (if length replies = length apdus + 1
         then res = (case sendAPDU_settle (last replies) of
                       Inl err \<Rightarrow> Inl err
                     | Inr response \<Rightarrow> signData_finalize_response response)
         else \<not> chunk_trip_ok (last replies) \<and> (\<exists>err. res = Inl err))
     \<and> (length replies \<noteq> length apdus + 1 \<longrightarrow>
          res = (case sendAPDU_settle (last replies) of
                  Inl err \<Rightarrow> Inl err
                | Inr response \<Rightarrow>
                    if response = [0x6d, 0x00] then Inl WalletNotInitialized
                    else if response = [0x69, 0x82] then Inl PinNotVerified
                    else Inl InvalidAPDUResponse))"
  using assms
proof (induction apdus arbitrary: w)
  case Nil
  then show ?case by simp
next
  case (Cons apdu apdus)
  obtain outcome w1 where send: "sendAPDU tr origin apdu timeout w = (outcome, w1)"
    by force
  from sendAPDU_trips [OF send] obtain reply
    where t1: "trips w1 = trips w @ [([signRequest origin apdu], timeout, reply)]"
      and o1: "sendAPDU_settle reply = outcome"
    by metis
  show ?case
  proof (cases "chunk_trip_ok reply")
    case False
    have refused: "res = (case outcome of
                  Inl err \<Rightarrow> Inl err
                | Inr response \<Rightarrow>
                    if response = [0x6d, 0x00] then Inl WalletNotInitialized
                    else if response = [0x69, 0x82] then Inl PinNotVerified
                    else Inl InvalidAPDUResponse) \<and> w' = w1"
    proof (cases outcome)
      case (Inl err)
      then have "res = Inl err \<and> w' = w1" using Cons.prems(2) send by simp
      then show ?thesis using Inl by simp
    next
      case (Inr response)
      then have ne: "response \<noteq> [0x90, 0x00]"
        using False o1 by (simp add: chunk_trip_ok_iff)
      have cr: "signData_chunk_response response =
          (if response = [0x6d, 0x00] then Inl WalletNotInitialized
           else if response = [0x69, 0x82] then Inl PinNotVerified
           else Inl InvalidAPDUResponse)"
        using ne by (simp add: signData_chunk_response_eq)
      then obtain err where e: "signData_chunk_response response = Inl err"
        by (cases "signData_chunk_response response") (simp_all split: if_splits)
      then have "res = Inl err \<and> w' = w1" using Cons.prems(2) send Inr by simp
      then show ?thesis
        using Inr e cr by (auto split: if_splits)
    qed
    then have "\<exists>err. res = Inl err"
      by (cases outcome) simp_all
    then show ?thesis
      using False t1 o1 refused by (intro exI [of _ "[reply]"]) simp
  next
    case True
    then obtain response
      where r: "outcome = Inr response" "signData_chunk_response response = Inr ()"
      using o1 by (cases outcome) (simp_all add: chunk_trip_ok_def)
    show ?thesis
    proof (cases "apdus = []")
      case last_chunk: True
      obtain outcome2 w2
        where send2: "sendAPDU tr origin signData_finalize_apdu timeout w1 = (outcome2, w2)"
        by force
      from sendAPDU_trips [OF send2] obtain reply2
        where t2: "trips w2 = trips w1 @ [([signRequest origin signData_finalize_apdu], timeout, reply2)]"
          and o2: "sendAPDU_settle reply2 = outcome2"
        by metis
      have "res = (case outcome2 of Inl err \<Rightarrow> Inl err
                   | Inr response \<Rightarrow> signData_finalize_response response) \<and> w' = w2"
        using Cons.prems(2) send r last_chunk send2
        by (auto simp: andThen_def split: sum.splits)
      then show ?thesis
        using True t1 t2 o2 last_chunk by (intro exI [of _ "[reply, reply2]"]) auto
    next
      case more: False
      have rec: "localCallback tr origin timeout apdus w1 = (res, w')"
        using Cons.prems(2) send r more by simp
      from Cons.IH [OF more rec] obtain replies
        where ih: "replies \<noteq> []" "length replies \<le> length apdus + 1"
          "trips w' = trips w1 @ map (\<lambda>(apdu, reply). ([signRequest origin apdu], timeout, reply))
                               (zip (apdus @ [signData_finalize_apdu]) replies)"
          "\<forall>reply \<in> set (butlast replies). chunk_trip_ok reply"
          "if length replies = length apdus + 1
           then res = (case sendAPDU_settle (last replies) of
                       Inl err \<Rightarrow> Inl err
                     | Inr response \<Rightarrow> signData_finalize_response response)
           else \<not> chunk_trip_ok (last replies) \<and> (\<exists>err. res = Inl err)"
          "length replies \<noteq> length apdus + 1 \<longrightarrow>
             res = (case sendAPDU_settle (last replies) of
                  Inl err \<Rightarrow> Inl err
                | Inr response \<Rightarrow>
                    if response = [0x6d, 0x00] then Inl WalletNotInitialized
                    else if response = [0x69, 0x82] then Inl PinNotVerified
                    else Inl InvalidAPDUResponse)"
        by blast
      show ?thesis
        using ih True t1 by (intro exI [of _ "reply # replies"]) (auto split: if_splits)
    qed
  qed
qed

section \<open>Runs of \<open>signData\<close>\<close>

lemma unat_of_nat_byte: "n < 256 \<Longrightarrow> unat (of_nat n :: byte) = n"
  by (simp add: unat_of_nat)

lemma signData_run:
  assumes apdus: "apdus = map (chunk_frame (hex_decode dataToSign)) [0..<(length (hex_decode dataToSign) + 7) div 8]"
  shows "\<exists>res w' replies.
      signData tr origin timeout dataToSign w = Some (res, w')
    \<and> length replies \<le> length apdus + 1
    \<and> trips w' = trips w @ map (\<lambda>(apdu, reply). ([signRequest origin apdu], timeout, reply))
                               (zip (apdus @ [signData_finalize_apdu]) replies)
    \<and> (\<forall>reply \<in> set (butlast replies). chunk_trip_ok reply)
    \<and> (apdus = [] \<longrightarrow> replies = [] \<and> res = Inl TypeError)
    \<and> (apdus \<noteq> [] \<longrightarrow> replies \<noteq> [] \<and>
         (if length replies = length apdus + 1
          then res = (case sendAPDU_settle (last replies) of
                       Inl err \<Rightarrow> Inl err
                     | Inr response \<Rightarrow> signData_finalize_response response)
          else \<not> chunk_trip_ok (last replies) \<and> (\<exists>err. res = Inl err)))
    \<and> (apdus \<noteq> [] \<and> length replies \<noteq> length apdus + 1 \<longrightarrow>
         res = (case sendAPDU_settle (last replies) of
                  Inl err \<Rightarrow> Inl err
                | Inr response \<Rightarrow>
                    if response = [0x6d, 0x00] then Inl WalletNotInitialized
                    else if response = [0x69, 0x82] then Inl PinNotVerified
                    else Inl InvalidAPDUResponse))"
proof -
  obtain res w' where run: "localCallback tr origin timeout apdus w = (res, w')"
    by force
  have sd: "signData tr origin timeout dataToSign w = Some (res, w')"
    by (simp add: signData_def signData_loop_total apdus [symmetric] run)
  show ?thesis
  proof (cases "apdus = []")
    case True
    then have "res = Inl TypeError \<and> w' = w" using run by simp
    then show ?thesis
      using sd True by (intro exI [of _ res] exI [of _ w'] exI [of _ "[]"]) simp
  next
    case False
    from localCallback_trace [OF False run] obtain replies where
      "replies \<noteq> []" "length replies \<le> length apdus + 1"
      "trips w' = trips w @ map (\<lambda>(apdu, reply). ([signRequest origin apdu], timeout, reply))
                               (zip (apdus @ [signData_finalize_apdu]) replies)"
      "\<forall>reply \<in> set (butlast replies). chunk_trip_ok reply"
      "if length replies = length apdus + 1
          then res = (case sendAPDU_settle (last replies) of
                       Inl err \<Rightarrow> Inl err
                     | Inr response \<Rightarrow> signData_finalize_response response)
          else \<not> chunk_trip_ok (last replies) \<and> (\<exists>err. res = Inl err)"
      "length replies \<noteq> length apdus + 1 \<longrightarrow>
         res = (case sendAPDU_settle (last replies) of
                  Inl err \<Rightarrow> Inl err
                | Inr response \<Rightarrow>
                    if response = [0x6d, 0x00] then Inl WalletNotInitialized
                    else if response = [0x69, 0x82] then Inl PinNotVerified
                    else Inl InvalidAPDUResponse)"
      by blast
    then show ?thesis
      using sd False by (intro exI [of _ res] exI [of _ w'] exI [of _ replies]) simp
  qed
qed

lemma sendAPDU_settle_length: "sendAPDU_settle reply = Inr response \<Longrightarrow> 2 \<le> length response"
  by (auto simp: sendAPDU_settle_def Let_def split: sum.splits option.splits if_splits)

lemma signData_finalize_response_Inr:
  assumes "2 \<le> length response" "signData_finalize_response response = Inr sig"
  shows "response = sig @ [0x90, 0x00]"
proof -
  have "drop (length response - 2) response = [0x90, 0x00]" and "sig = take (length response - 2) response"
    using assms by (auto simp: signData_finalize_response_def status_not_drop split: if_splits)
  then show ?thesis
    by (metis append_take_drop_id)
qed

lemma butlast_nth_ok:
  assumes "\<forall>reply \<in> set (butlast replies). P reply" "Suc i < length replies"
  shows "P (replies ! i)"
proof -
  have "i < length (butlast replies)" using assms(2) by simp
  then have "butlast replies ! i \<in> set (butlast replies)" by (rule nth_mem)
  moreover have "butlast replies ! i = replies ! i"
    using \<open>i < length (butlast replies)\<close> by (simp add: nth_butlast)
  ultimately show ?thesis using assms(1) by auto
qed

lemma sendAPDU_scripted_timeout:
  "sendAPDU scripted origin apdu timeout \<lparr>device = [], trips = ts\<rparr> =
     (Inl (TransportFailure ''timeout''),
      \<lparr>device = [], trips = ts @ [([signRequest origin apdu], timeout, Inl ''timeout'')]\<rparr>)"
  by (simp add: sendAPDU_def sign_def scripted_def sendAPDU_settle_def)

text \<open>
  Concrete runs on the scripted device: a payload of 9 bytes and one of 16 bytes that
  are signed, and a payload of 17 bytes whose second chunk is refused with status
  \<open>69 82\<close>, refused with status \<open>6A 80\<close>, or lost to a transport timeout.
\<close>

lemma signData_run_two_chunks:
  "signData scripted ''https://wallet.example'' 30 ''000102030405060708''
     \<lparr>device = [answer [0x90, 0x00], answer [0x90, 0x00], answer [0xAA, 0xBB, 0x90, 0x00]], trips = []\<rparr>
   = Some (Inr [0xAA, 0xBB],
           \<lparr>device = [],
             trips = [([signRequest ''https://wallet.example'' [0x80, 0xF2, 0x00, 0x00, 0x08, 0, 1, 2, 3, 4, 5, 6, 7]],
                      30, answer [0x90, 0x00]),
                     ([signRequest ''https://wallet.example'' [0x80, 0xF2, 0x01, 0x00, 0x01, 8]],
                      30, answer [0x90, 0x00]),
                     ([signRequest ''https://wallet.example'' [0x80, 0xF2, 0x02, 0x00]],
                      30, answer [0xAA, 0xBB, 0x90, 0x00])]\<rparr>)"
proof -
  have raw: "hex_decode ''000102030405060708'' = [0, 1, 2, 3, 4, 5, 6, 7, 8]"
    by (simp add: hex_value_def)
  have loop: "signData_loop 0 [0, 1, 2, 3, 4, 5, 6, 7, 8] []
     = Some [[0x80, 0xF2, 0x00, 0x00, 0x08, 0, 1, 2, 3, 4, 5, 6, 7],
             [0x80, 0xF2, 0x01, 0x00, 0x01, 8]]"
    by (simp add: signData_loop.simps)
  have run: "localCallback scripted ''https://wallet.example'' 30
       [[0x80, 0xF2, 0x00, 0x00, 0x08, 0, 1, 2, 3, 4, 5, 6, 7],
        [0x80, 0xF2, 0x01, 0x00, 0x01, 8]]
     \<lparr>device = [answer [0x90, 0x00], answer [0x90, 0x00], answer [0xAA, 0xBB, 0x90, 0x00]], trips = []\<rparr>
   = (Inr [0xAA, 0xBB],
           \<lparr>device = [],
             trips = [([signRequest ''https://wallet.example'' [0x80, 0xF2, 0x00, 0x00, 0x08, 0, 1, 2, 3, 4, 5, 6, 7]],
                      30, answer [0x90, 0x00]),
                     ([signRequest ''https://wallet.example'' [0x80, 0xF2, 0x01, 0x00, 0x01, 8]],
                      30, answer [0x90, 0x00]),
                     ([signRequest ''https://wallet.example'' [0x80, 0xF2, 0x02, 0x00]],
                      30, answer [0xAA, 0xBB, 0x90, 0x00])]\<rparr>)"
    by (simp add: sendAPDU_scripted sendAPDU_scripted_timeout signData_chunk_response_def
        buf_at_def andThen_def signData_finalize_apdu_def signData_finalize_response_def
        status_not_def)
  show ?thesis
    by (simp only: signData_def raw loop option.map run)
qed


lemma signData_run_refused_chunk:
  "signData scripted ''https://wallet.example'' 30 ''000102030405060708090a0b0c0d0e0f10''
     \<lparr>device = [answer [0x90, 0x00], answer [0x69, 0x82], answer [0x90, 0x00]], trips = []\<rparr>
   = Some (Inl PinNotVerified,
           \<lparr>device = [answer [0x90, 0x00]],
             trips = [([signRequest ''https://wallet.example'' [0x80, 0xF2, 0x00, 0x00, 0x08, 0, 1, 2, 3, 4, 5, 6, 7]],
                      30, answer [0x90, 0x00]),
                     ([signRequest ''https://wallet.example'' [0x80, 0xF2, 0x01, 0x00, 0x08, 8, 9, 10, 11, 12, 13, 14, 15]],
                      30, answer [0x69, 0x82])]\<rparr>)"
proof -
  have raw: "hex_decode ''000102030405060708090a0b0c0d0e0f10'' = [0, 1, 2, 3, 4, 5, 6, 7, 8, 9, 10, 11, 12, 13, 14, 15, 16]"
    by (simp add: hex_value_def)
  have loop: "signData_loop 0 [0, 1, 2, 3, 4, 5, 6, 7, 8, 9, 10, 11, 12, 13, 14, 15, 16] []
     = Some [[0x80, 0xF2, 0x00, 0x00, 0x08, 0, 1, 2, 3, 4, 5, 6, 7],
             [0x80, 0xF2, 0x01, 0x00, 0x08, 8, 9, 10, 11, 12, 13, 14, 15],
             [0x80, 0xF2, 0x01, 0x00, 0x01, 16]]"
    by (simp add: signData_loop.simps)
  have run: "localCallback scripted ''https://wallet.example'' 30
       [[0x80, 0xF2, 0x00, 0x00, 0x08, 0, 1, 2, 3, 4, 5, 6, 7],
        [0x80, 0xF2, 0x01, 0x00, 0x08, 8, 9, 10, 11, 12, 13, 14, 15],
        [0x80, 0xF2, 0x01, 0x00, 0x01, 16]]
     \<lparr>device = [answer [0x90, 0x00], answer [0x69, 0x82], answer [0x90, 0x00]], trips = []\<rparr>
   = (Inl PinNotVerified,
           \<lparr>device = [answer [0x90, 0x00]],
             trips = [([signRequest ''https://wallet.example'' [0x80, 0xF2, 0x00, 0x00, 0x08, 0, 1, 2, 3, 4, 5, 6, 7]],
                      30, answer [0x90, 0x00]),
                     ([signRequest ''https://wallet.example'' [0x80, 0xF2, 0x01, 0x00, 0x08, 8, 9, 10, 11, 12, 13, 14, 15]],
                      30, answer [0x69, 0x82])]\<rparr>)"
    by (simp add: sendAPDU_scripted sendAPDU_scripted_timeout signData_chunk_response_def
        buf_at_def andThen_def signData_finalize_apdu_def signData_finalize_response_def
        status_not_def)
  show ?thesis
    by (simp only: signData_def raw loop option.map run)
qed

lemma signData_run_other_status:
  "signData scripted ''https://wallet.example'' 30 ''000102030405060708090a0b0c0d0e0f10''
     \<lparr>device = [answer [0x90, 0x00], answer [0x6A, 0x80], answer [0x90, 0x00]], trips = []\<rparr>
   = Some (Inl InvalidAPDUResponse,
           \<lparr>device = [answer [0x90, 0x00]],
             trips = [([signRequest ''https://wallet.example'' [0x80, 0xF2, 0x00, 0x00, 0x08, 0, 1, 2, 3, 4, 5, 6, 7]],
                      30, answer [0x90, 0x00]),
                     ([signRequest ''https://wallet.example'' [0x80, 0xF2, 0x01, 0x00, 0x08, 8, 9, 10, 11, 12, 13, 14, 15]],
                      30, answer [0x6A, 0x80])]\<rparr>)"
proof -
  have raw: "hex_decode ''000102030405060708090a0b0c0d0e0f10'' = [0, 1, 2, 3, 4, 5, 6, 7, 8, 9, 10, 11, 12, 13, 14, 15, 16]"
    by (simp add: hex_value_def)
  have loop: "signData_loop 0 [0, 1, 2, 3, 4, 5, 6, 7, 8, 9, 10, 11, 12, 13, 14, 15, 16] []
     = Some [[0x80, 0xF2, 0x00, 0x00, 0x08, 0, 1, 2, 3, 4, 5, 6, 7],
             [0x80, 0xF2, 0x01, 0x00, 0x08, 8, 9, 10, 11, 12, 13, 14, 15],
             [0x80, 0xF2, 0x01, 0x00, 0x01, 16]]"
    by (simp add: signData_loop.simps)
  have run: "localCallback scripted ''https://wallet.example'' 30
       [[0x80, 0xF2, 0x00, 0x00, 0x08, 0, 1, 2, 3, 4, 5, 6, 7],
        [0x80, 0xF2, 0x01, 0x00, 0x08, 8, 9, 10, 11, 12, 13, 14, 15],
        [0x80, 0xF2, 0x01, 0x00, 0x01, 16]]
     \<lparr>device = [answer [0x90, 0x00], answer [0x6A, 0x80], answer [0x90, 0x00]], trips = []\<rparr>
   = (Inl InvalidAPDUResponse,
           \<lparr>device = [answer [0x90, 0x00]],
             trips = [([signRequest ''https://wallet.example'' [0x80, 0xF2, 0x00, 0x00, 0x08, 0, 1, 2, 3, 4, 5, 6, 7]],
                      30, answer [0x90, 0x00]),
                     ([signRequest ''https://wallet.example'' [0x80, 0xF2, 0x01, 0x00, 0x08, 8, 9, 10, 11, 12, 13, 14, 15]],
                      30, answer [0x6A, 0x80])]\<rparr>)"
    by (simp add: sendAPDU_scripted sendAPDU_scripted_timeout signData_chunk_response_def
        buf_at_def andThen_def signData_finalize_apdu_def signData_finalize_response_def
        status_not_def)
  show ?thesis
    by (simp only: signData_def raw loop option.map run)
qed

lemma signData_run_timeout:
  "signData scripted ''https://wallet.example'' 30 ''000102030405060708090a0b0c0d0e0f10''
     \<lparr>device = [answer [0x90, 0x00]], trips = []\<rparr>
   = Some (Inl (TransportFailure ''timeout''),
           \<lparr>device = [],
             trips = [([signRequest ''https://wallet.example'' [0x80, 0xF2, 0x00, 0x00, 0x08, 0, 1, 2, 3, 4, 5, 6, 7]],
                      30, answer [0x90, 0x00]),
                     ([signRequest ''https://wallet.example'' [0x80, 0xF2, 0x01, 0x00, 0x08, 8, 9, 10, 11, 12, 13, 14, 15]],
                      30, Inl ''timeout'')]\<rparr>)"
proof -
  have raw: "hex_decode ''000102030405060708090a0b0c0d0e0f10'' = [0, 1, 2, 3, 4, 5, 6, 7, 8, 9, 10, 11, 12, 13, 14, 15, 16]"
    by (simp add: hex_value_def)
  have loop: "signData_loop 0 [0, 1, 2, 3, 4, 5, 6, 7, 8, 9, 10, 11, 12, 13, 14, 15, 16] []
     = Some [[0x80, 0xF2, 0x00, 0x00, 0x08, 0, 1, 2, 3, 4, 5, 6, 7],
             [0x80, 0xF2, 0x01, 0x00, 0x08, 8, 9, 10, 11, 12, 13, 14, 15],
             [0x80, 0xF2, 0x01, 0x00, 0x01, 16]]"
    by (simp add: signData_loop.simps)
  have run: "localCallback scripted ''https://wallet.example'' 30
       [[0x80, 0xF2, 0x00, 0x00, 0x08, 0, 1, 2, 3, 4, 5, 6, 7],
        [0x80, 0xF2, 0x01, 0x00, 0x08, 8, 9, 10, 11, 12, 13, 14, 15],
        [0x80, 0xF2, 0x01, 0x00, 0x01, 16]]
     \<lparr>device = [answer [0x90, 0x00]], trips = []\<rparr>
   = (Inl (TransportFailure ''timeout''),
           \<lparr>device = [],
             trips = [([signRequest ''https://wallet.example'' [0x80, 0xF2, 0x00, 0x00, 0x08, 0, 1, 2, 3, 4, 5, 6, 7]],
                      30, answer [0x90, 0x00]),
                     ([signRequest ''https://wallet.example'' [0x80, 0xF2, 0x01, 0x00, 0x08, 8, 9, 10, 11, 12, 13, 14, 15]],
                      30, Inl ''timeout'')]\<rparr>)"
    by (simp add: sendAPDU_scripted sendAPDU_scripted_timeout signData_chunk_response_def
        buf_at_def andThen_def signData_finalize_apdu_def signData_finalize_response_def
        status_not_def)
  show ?thesis
    by (simp only: signData_def raw loop option.map run)
qed

text \<open>
  C2.  \<open>signData\<close> always returns.  Its round trips are the chunk frames in order,
  then the finalize frame, cut after some frame, and every round trip before the last
  one was a chunk round trip whose reply settled to exactly the status \<open>90 00\<close>.  A
  chunk round trip whose reply settles to anything else (another status, a malformed
  reply, a transport failure such as a timeout) is the last round trip of the call:
  no further chunk frame and no finalize frame follows, and the call rejects, with
  "Wallet not initialized." for \<open>6D 00\<close>, "PIN-code not verified." for \<open>69 82\<close>,
  "Invalid APDU response." for any other frame, and with the transport's own error
  for a transport failure.  After the finalize round trip the result is the frame
  without its last two bytes when these are \<open>90 00\<close> and a rejection otherwise, so a
  signature is resolved only after every chunk round trip succeeded and the finalize
  frame was answered with that signature followed by \<open>90 00\<close>.
\<close>

theorem signData_stops_at_first_failure:
  "\<exists>res w' apdus replies.
      signData tr origin timeout dataToSign w = Some (res, w')
    \<and> signData_loop 0 (hex_decode dataToSign) [] = Some apdus
    \<and> length replies \<le> length apdus + 1
    \<and> trips w' = trips w @ map (\<lambda>(apdu, reply). ([signRequest origin apdu], timeout, reply))
                               (zip (apdus @ [signData_finalize_apdu]) replies)
    \<and> (\<forall>i. Suc i < length replies \<longrightarrow> sendAPDU_settle (replies ! i) = Inr [0x90, 0x00])
    \<and> (\<forall>i < length replies. i < length apdus \<and> sendAPDU_settle (replies ! i) \<noteq> Inr [0x90, 0x00]
          \<longrightarrow> Suc i = length replies
              \<and> res = (case sendAPDU_settle (replies ! i) of
                         Inl err \<Rightarrow> Inl err
                       | Inr response \<Rightarrow>
                           if response = [0x6d, 0x00] then Inl WalletNotInitialized
                           else if response = [0x69, 0x82] then Inl PinNotVerified
                           else Inl InvalidAPDUResponse)
              \<and> (\<forall>err. replies ! i = Inl err \<longrightarrow> res = Inl (TransportFailure err)))
    \<and> (length replies = length apdus + 1
          \<longrightarrow> res = (case sendAPDU_settle (last replies) of
                       Inl err \<Rightarrow> Inl err
                     | Inr response \<Rightarrow>
                         if drop (length response - 2) response = [0x90, 0x00]
                         then Inr (take (length response - 2) response)
                         else Inl InvalidAPDUResponse))
    \<and> (\<forall>sig. res = Inr sig
          \<longrightarrow> length replies = length apdus + 1
              \<and> (\<forall>i < length apdus. sendAPDU_settle (replies ! i) = Inr [0x90, 0x00])
              \<and> sendAPDU_settle (last replies) = Inr (sig @ [0x90, 0x00]))"
proof -
  define apdus where "apdus = map (chunk_frame (hex_decode dataToSign)) [0..<(length (hex_decode dataToSign) + 7) div 8]"
  from signData_run [OF apdus_def, of tr origin timeout w] obtain res w' replies where
    sd: "signData tr origin timeout dataToSign w = Some (res, w')"
    and len: "length replies \<le> length apdus + 1"
    and tr: "trips w' = trips w @ map (\<lambda>(apdu, reply). ([signRequest origin apdu], timeout, reply))
                               (zip (apdus @ [signData_finalize_apdu]) replies)"
    and ok: "\<forall>reply \<in> set (butlast replies). chunk_trip_ok reply"
    and empty: "apdus = [] \<longrightarrow> replies = [] \<and> res = Inl TypeError"
    and nonempty: "apdus \<noteq> [] \<longrightarrow> replies \<noteq> [] \<and>
         (if length replies = length apdus + 1
          then res = (case sendAPDU_settle (last replies) of
                       Inl err \<Rightarrow> Inl err
                     | Inr response \<Rightarrow> signData_finalize_response response)
          else \<not> chunk_trip_ok (last replies) \<and> (\<exists>err. res = Inl err))"
    and refused: "apdus \<noteq> [] \<and> length replies \<noteq> length apdus + 1 \<longrightarrow>
         res = (case sendAPDU_settle (last replies) of
                  Inl err \<Rightarrow> Inl err
                | Inr response \<Rightarrow>
                    if response = [0x6d, 0x00] then Inl WalletNotInitialized
                    else if response = [0x69, 0x82] then Inl PinNotVerified
                    else Inl InvalidAPDUResponse)"
    by blast
  have loop: "signData_loop 0 (hex_decode dataToSign) [] = Some apdus"
    by (simp add: signData_loop_total apdus_def)
  have before: "\<forall>i. Suc i < length replies \<longrightarrow> sendAPDU_settle (replies ! i) = Inr [0x90, 0x00]"
    using butlast_nth_ok [OF ok] by (simp add: chunk_trip_ok_iff)
  have fail: "Suc i = length replies
              \<and> res = (case sendAPDU_settle (replies ! i) of
                         Inl err \<Rightarrow> Inl err
                       | Inr response \<Rightarrow>
                           if response = [0x6d, 0x00] then Inl WalletNotInitialized
                           else if response = [0x69, 0x82] then Inl PinNotVerified
                           else Inl InvalidAPDUResponse)
              \<and> (\<forall>err. replies ! i = Inl err \<longrightarrow> res = Inl (TransportFailure err))"
    if i: "i < length replies" "i < length apdus" "sendAPDU_settle (replies ! i) \<noteq> Inr [0x90, 0x00]" for i
  proof -
    have last: "Suc i = length replies" using before i(1) i(3) by (meson Suc_lessI)
    then have short: "length replies \<noteq> length apdus + 1" using i(2) by simp
    have ne: "apdus \<noteq> []" using i(2) by auto
    have l: "last replies = replies ! i"
      using last i(1) by (metis diff_Suc_1 last_conv_nth length_greater_0_conv less_nat_zero_code list.size(3))
    have r: "res = (case sendAPDU_settle (replies ! i) of
                         Inl err \<Rightarrow> Inl err
                       | Inr response \<Rightarrow>
                           if response = [0x6d, 0x00] then Inl WalletNotInitialized
                           else if response = [0x69, 0x82] then Inl PinNotVerified
                           else Inl InvalidAPDUResponse)"
      using refused ne short l by simp
    have "res = Inl (TransportFailure err)" if "replies ! i = Inl err" for err
      using r that by (simp add: sendAPDU_settle_def)
    then show ?thesis using last r by blast
  qed
  have finalize: "res = (case sendAPDU_settle (last replies) of
                       Inl err \<Rightarrow> Inl err
                     | Inr response \<Rightarrow>
                         if drop (length response - 2) response = [0x90, 0x00]
                         then Inr (take (length response - 2) response)
                         else Inl InvalidAPDUResponse)"
    if full: "length replies = length apdus + 1"
  proof -
    have ne: "apdus \<noteq> []" using empty full by auto
    then have r: "res = (case sendAPDU_settle (last replies) of
                       Inl err \<Rightarrow> Inl err
                     | Inr response \<Rightarrow> signData_finalize_response response)"
      using nonempty full by simp
    show ?thesis
    proof (cases "sendAPDU_settle (last replies)")
      case (Inl err)
      then show ?thesis using r by simp
    next
      case (Inr response)
      then have "2 \<le> length response" by (rule sendAPDU_settle_length)
      then show ?thesis
        using r Inr by (simp add: signData_finalize_response_def status_not_drop)
    qed
  qed
  have success: "length replies = length apdus + 1
              \<and> (\<forall>i < length apdus. sendAPDU_settle (replies ! i) = Inr [0x90, 0x00])
              \<and> sendAPDU_settle (last replies) = Inr (sig @ [0x90, 0x00])"
    if r: "res = Inr sig" for sig
  proof -
    have ne: "apdus \<noteq> []" using empty r by auto
    have full: "length replies = length apdus + 1"
      using nonempty ne r by (auto split: if_splits)
    have fin: "(case sendAPDU_settle (last replies) of
                       Inl err \<Rightarrow> Inl err
                     | Inr response \<Rightarrow> signData_finalize_response response) = Inr sig"
      using nonempty ne full r by simp
    then obtain response where s: "sendAPDU_settle (last replies) = Inr response"
      and f: "signData_finalize_response response = Inr sig"
      by (cases "sendAPDU_settle (last replies)") simp_all
    have "response = sig @ [0x90, 0x00]"
      using signData_finalize_response_Inr [OF sendAPDU_settle_length [OF s] f] .
    then show ?thesis using full before s by simp
  qed
  show ?thesis
    using sd loop len tr before fail finalize success
    by (intro exI [of _ res] exI [of _ w'] exI [of _ apdus] exI [of _ replies]) blast
qed

theorem signData_stops_at_first_failure_witness:
  "signData scripted ''https://wallet.example'' 30 ''000102030405060708090a0b0c0d0e0f10''
     \<lparr>device = [answer [0x90, 0x00], answer [0x69, 0x82], answer [0x90, 0x00]], trips = []\<rparr>
   = Some (Inl PinNotVerified,
           \<lparr>device = [answer [0x90, 0x00]],
             trips = [([signRequest ''https://wallet.example'' [0x80, 0xF2, 0x00, 0x00, 0x08, 0, 1, 2, 3, 4, 5, 6, 7]],
                      30, answer [0x90, 0x00]),
                     ([signRequest ''https://wallet.example'' [0x80, 0xF2, 0x01, 0x00, 0x08, 8, 9, 10, 11, 12, 13, 14, 15]],
                      30, answer [0x69, 0x82])]\<rparr>)
   \<and> signData scripted ''https://wallet.example'' 30 ''000102030405060708090a0b0c0d0e0f10''
     \<lparr>device = [answer [0x90, 0x00], answer [0x6A, 0x80], answer [0x90, 0x00]], trips = []\<rparr>
   = Some (Inl InvalidAPDUResponse,
           \<lparr>device = [answer [0x90, 0x00]],
             trips = [([signRequest ''https://wallet.example'' [0x80, 0xF2, 0x00, 0x00, 0x08, 0, 1, 2, 3, 4, 5, 6, 7]],
                      30, answer [0x90, 0x00]),
                     ([signRequest ''https://wallet.example'' [0x80, 0xF2, 0x01, 0x00, 0x08, 8, 9, 10, 11, 12, 13, 14, 15]],
                      30, answer [0x6A, 0x80])]\<rparr>)
   \<and> signData scripted ''https://wallet.example'' 30 ''000102030405060708090a0b0c0d0e0f10''
     \<lparr>device = [answer [0x90, 0x00]], trips = []\<rparr>
   = Some (Inl (TransportFailure ''timeout''),
           \<lparr>device = [],
             trips = [([signRequest ''https://wallet.example'' [0x80, 0xF2, 0x00, 0x00, 0x08, 0, 1, 2, 3, 4, 5, 6, 7]],
                      30, answer [0x90, 0x00]),
                     ([signRequest ''https://wallet.example'' [0x80, 0xF2, 0x01, 0x00, 0x08, 8, 9, 10, 11, 12, 13, 14, 15]],
                      30, Inl ''timeout'')]\<rparr>)
   \<and> signData scripted ''https://wallet.example'' 30 ''000102030405060708''
     \<lparr>device = [answer [0x90, 0x00], answer [0x90, 0x00], answer [0xAA, 0xBB, 0x90, 0x00]], trips = []\<rparr>
   = Some (Inr [0xAA, 0xBB],
           \<lparr>device = [],
             trips = [([signRequest ''https://wallet.example'' [0x80, 0xF2, 0x00, 0x00, 0x08, 0, 1, 2, 3, 4, 5, 6, 7]],
                      30, answer [0x90, 0x00]),
                     ([signRequest ''https://wallet.example'' [0x80, 0xF2, 0x01, 0x00, 0x01, 8]],
                      30, answer [0x90, 0x00]),
                     ([signRequest ''https://wallet.example'' [0x80, 0xF2, 0x02, 0x00]],
                      30, answer [0xAA, 0xBB, 0x90, 0x00])]\<rparr>)"
  using signData_stops_at_first_failure [of scripted "''https://wallet.example''" 30
      "''000102030405060708090a0b0c0d0e0f10''"
      "\<lparr>device = [answer [0x90, 0x00], answer [0x69, 0x82], answer [0x90, 0x00]], trips = []\<rparr>"]
    signData_stops_at_first_failure [of scripted "''https://wallet.example''" 30
      "''000102030405060708090a0b0c0d0e0f10''"
      "\<lparr>device = [answer [0x90, 0x00], answer [0x6A, 0x80], answer [0x90, 0x00]], trips = []\<rparr>"]
    signData_stops_at_first_failure [of scripted "''https://wallet.example''" 30
      "''000102030405060708090a0b0c0d0e0f10''"
      "\<lparr>device = [answer [0x90, 0x00]], trips = []\<rparr>"]
    signData_stops_at_first_failure [of scripted "''https://wallet.example''" 30
      "''000102030405060708''"
      "\<lparr>device = [answer [0x90, 0x00], answer [0x90, 0x00], answer [0xAA, 0xBB, 0x90, 0x00]], trips = []\<rparr>"]
  by (simp only: signData_run_refused_chunk signData_run_other_status signData_run_timeout
      signData_run_two_chunks simp_thms)





section \<open>The layout of the command frames\<close>

lemma length_prefixed_chunk_frame: "length_prefixed (chunk_frame raw i)"
  by (simp add: length_prefixed_def chunk_frame_def unat_of_nat_byte min_def)

lemma snd_andThen_pure: "snd (andThen p (\<lambda>x w. (f x, w))) = snd p"
proof (cases p)
  case (Pair r w)
  then show ?thesis by (cases r) (simp_all add: andThen_def)
qed

lemma sendAPDU_one_trip:
  "\<exists>reply. trips (snd (sendAPDU tr origin apdu timeout w))
      = trips w @ [([signRequest origin apdu], timeout, reply)]
     \<and> fst (sendAPDU tr origin apdu timeout w) = sendAPDU_settle reply"
  using sendAPDU_trips [of tr origin apdu timeout w
      "fst (sendAPDU tr origin apdu timeout w)" "snd (sendAPDU tr origin apdu timeout w)"]
  by simp

lemma verifyPin_response_world:
  "snd (verifyPin_response tr origin timeout response w) =
     (if response = [0x69, 0x82] then snd (getPinTriesLeft tr origin timeout w) else w)"
proof (cases response)
  case Nil
  then show ?thesis by (simp add: verifyPin_response_def)
next
  case (Cons a r1)
  note c1 = this
  show ?thesis
  proof (cases r1)
    case Nil
    then show ?thesis using c1 by (simp add: verifyPin_response_def)
  next
    case (Cons b r2)
    then show ?thesis using c1
      by (cases r2) (auto simp: verifyPin_response_def buf_at_def snd_andThen_pure)
  qed
qed

text \<open>
  C7, as stated, fails: \<open>getInfo\<close> sends the four bytes \<open>80 C4 00 00\<close>, a frame with no
  length byte, and \<open>getRandom(16)\<close> sends \<open>80 C0 00 00 10\<close>, whose length byte is \<open>10\<close>
  while no payload byte follows.
\<close>

theorem command_frame_layout_counterexample:
  "trips (snd (getInfo scripted ''https://wallet.example'' 30
                 \<lparr>device = [answer [0x6d, 0x00]], trips = []\<rparr>))
     = [([signRequest ''https://wallet.example'' [0x80, 0xC4, 0x00, 0x00]], 30, answer [0x6d, 0x00])]
   \<and> \<not> length_prefixed [0x80, 0xC4, 0x00, 0x00]
   \<and> trips (snd (getRandom scripted ''https://wallet.example'' 30 16
                 \<lparr>device = [answer [0x6d, 0x00]], trips = []\<rparr>))
     = [([signRequest ''https://wallet.example'' [0x80, 0xC0, 0x00, 0x00, 0x10]], 30, answer [0x6d, 0x00])]
   \<and> \<not> length_prefixed [0x80, 0xC0, 0x00, 0x00, 0x10]"
  by (simp add: getInfo_def getInfo_apdu_def getRandom_def getRandom_apdu_def snd_andThen_pure
      sendAPDU_scripted length_prefixed_def)

text \<open>
  C7, amended.  Every command frame that an operation sends starts with the class byte
  \<open>80\<close>, the instruction and two parameter bytes.  \<open>getInfo\<close>, \<open>getPublicKey\<close> and
  \<open>getPinTriesLeft\<close> send these four bytes alone (\<open>80 C4 00 00\<close>, \<open>80 40 00 00\<close>,
  \<open>80 22 80 00\<close>), and so does the finalize step of \<open>signData\<close>.  \<open>getRandom\<close> sends
  nothing when the length is 0 or above 128 and otherwise the four bytes \<open>80 C0 00 00\<close>
  and one byte that holds the requested length, with no payload.  \<open>wipeoutWallet\<close>
  sends \<open>80 F0 00 00 00\<close>.  \<open>initWallet\<close> and \<open>verifyPin\<close> send nothing when their
  argument checks fail, and otherwise a frame whose length byte is the number of
  payload bytes that follow (\<open>verifyPin\<close> adds the frame \<open>80 22 80 00\<close> after a \<open>69 82\<close>
  answer).  Every chunk frame of \<open>signData\<close> is \<open>80 F2\<close>, two parameter bytes, and a
  length byte equal to the number of payload bytes that follow.
\<close>

theorem command_frames_sent:
  "(\<exists>reply. trips (snd (getInfo tr origin timeout w))
       = trips w @ [([signRequest origin [0x80, 0xC4, 0x00, 0x00]], timeout, reply)])
   \<and> (\<exists>reply. trips (snd (getPublicKey tr origin timeout w))
       = trips w @ [([signRequest origin [0x80, 0x40, 0x00, 0x00]], timeout, reply)])
   \<and> (\<exists>reply. trips (snd (getPinTriesLeft tr origin timeout w))
       = trips w @ [([signRequest origin [0x80, 0x22, 0x80, 0x00]], timeout, reply)])
   \<and> (\<exists>reply. trips (snd (wipeoutWallet tr origin timeout w))
       = trips w @ [([signRequest origin [0x80, 0xF0, 0x00, 0x00, 0x00]], timeout, reply)])
   \<and> (if len = 0 \<or> 128 < len
       then trips (snd (getRandom tr origin timeout len w)) = trips w
       else \<exists>reply. trips (snd (getRandom tr origin timeout len w))
              = trips w @ [([signRequest origin [0x80, 0xC0, 0x00, 0x00, of_int len]], timeout, reply)])
   \<and> (if length (hex_decode privateKey) = 32
          \<and> 4 \<le> length (utf8_bytes pin) \<and> length (utf8_bytes pin) \<le> 32
       then \<exists>reply payload.
              payload = of_nat (length (utf8_bytes pin)) # utf8_bytes pin @ hex_decode privateKey
              \<and> length payload < 256
              \<and> length_prefixed ([0x80, 0x20, 0x00, 0x00, of_nat (length payload)] @ payload)
              \<and> trips (snd (initWallet tr origin timeout privateKey pin w))
                  = trips w @ [([signRequest origin
                                   ([0x80, 0x20, 0x00, 0x00, of_nat (length payload)] @ payload)],
                                timeout, reply)]
       else trips (snd (initWallet tr origin timeout privateKey pin w)) = trips w)
   \<and> (if 4 \<le> length (utf8_bytes pin) \<and> length (utf8_bytes pin) \<le> 32
       then \<exists>replies payload.
              payload = utf8_bytes pin
              \<and> length payload < 256
              \<and> length_prefixed ([0x80, 0x22, 0x00, 0x00, of_nat (length payload)] @ payload)
              \<and> replies \<noteq> [] \<and> length replies \<le> 2
              \<and> (length replies = 2 \<longleftrightarrow> sendAPDU_settle (hd replies) = Inr [0x69, 0x82])
              \<and> trips (snd (verifyPin tr origin timeout pin w))
                  = trips w @ map (\<lambda>(apdu, reply). ([signRequest origin apdu], timeout, reply))
                      (zip [[0x80, 0x22, 0x00, 0x00, of_nat (length payload)] @ payload,
                            [0x80, 0x22, 0x80, 0x00]] replies)
       else trips (snd (verifyPin tr origin timeout pin w)) = trips w)
   \<and> (\<exists>res w' apdus replies.
          signData tr origin timeout dataToSign w = Some (res, w')
        \<and> signData_loop 0 (hex_decode dataToSign) [] = Some apdus
        \<and> length replies \<le> length apdus + 1
        \<and> trips w' = trips w @ map (\<lambda>(apdu, reply). ([signRequest origin apdu], timeout, reply))
                                   (zip (apdus @ [[0x80, 0xF2, 0x02, 0x00]]) replies)
        \<and> (\<forall>apdu \<in> set apdus. length_prefixed apdu \<and> take 2 apdu = [0x80, 0xF2]))"
proof -
  have info: "\<exists>reply. trips (snd (getInfo tr origin timeout w))
       = trips w @ [([signRequest origin [0x80, 0xC4, 0x00, 0x00]], timeout, reply)]"
    using sendAPDU_one_trip [of tr origin "[0x80, 0xC4, 0x00, 0x00]" timeout w]
    by (auto simp: getInfo_def getInfo_apdu_def snd_andThen_pure)
  have key: "\<exists>reply. trips (snd (getPublicKey tr origin timeout w))
       = trips w @ [([signRequest origin [0x80, 0x40, 0x00, 0x00]], timeout, reply)]"
    using sendAPDU_one_trip [of tr origin "[0x80, 0x40, 0x00, 0x00]" timeout w]
    by (auto simp: getPublicKey_def getPublicKey_apdu_def snd_andThen_pure)
  have tries: "\<exists>reply. trips (snd (getPinTriesLeft tr origin timeout w'))
       = trips w' @ [([signRequest origin [0x80, 0x22, 0x80, 0x00]], timeout, reply)]" for w'
    using sendAPDU_one_trip [of tr origin "[0x80, 0x22, 0x80, 0x00]" timeout w']
    by (auto simp: getPinTriesLeft_def getPinTriesLeft_apdu_def snd_andThen_pure)
  have wipe: "\<exists>reply. trips (snd (wipeoutWallet tr origin timeout w))
       = trips w @ [([signRequest origin [0x80, 0xF0, 0x00, 0x00, 0x00]], timeout, reply)]"
    using sendAPDU_one_trip [of tr origin "[0x80, 0xF0, 0x00, 0x00, 0x00]" timeout w]
    by (auto simp: wipeoutWallet_def wipeoutWallet_apdu_def snd_andThen_pure)
  have random: "if len = 0 \<or> 128 < len
       then trips (snd (getRandom tr origin timeout len w)) = trips w
       else \<exists>reply. trips (snd (getRandom tr origin timeout len w))
              = trips w @ [([signRequest origin [0x80, 0xC0, 0x00, 0x00, of_int len]], timeout, reply)]"
    using sendAPDU_one_trip [of tr origin "[0x80, 0xC0, 0x00, 0x00, of_int len]" timeout w]
    by (auto simp: getRandom_def getRandom_apdu_def snd_andThen_pure)
  have init: "if length (hex_decode privateKey) = 32
          \<and> 4 \<le> length (utf8_bytes pin) \<and> length (utf8_bytes pin) \<le> 32
       then \<exists>reply payload.
              payload = of_nat (length (utf8_bytes pin)) # utf8_bytes pin @ hex_decode privateKey
              \<and> length payload < 256
              \<and> length_prefixed ([0x80, 0x20, 0x00, 0x00, of_nat (length payload)] @ payload)
              \<and> trips (snd (initWallet tr origin timeout privateKey pin w))
                  = trips w @ [([signRequest origin
                                   ([0x80, 0x20, 0x00, 0x00, of_nat (length payload)] @ payload)],
                                timeout, reply)]
       else trips (snd (initWallet tr origin timeout privateKey pin w)) = trips w"
  proof (cases "length (hex_decode privateKey) = 32
          \<and> 4 \<le> length (utf8_bytes pin) \<and> length (utf8_bytes pin) \<le> 32")
    case False
    then show ?thesis by (auto simp: initWallet_def Let_def)
  next
    case True
    define payload where "payload = of_nat (length (utf8_bytes pin)) # utf8_bytes pin @ hex_decode privateKey"
    have n: "length payload < 256" using True by (simp add: payload_def)
    have frame: "initWallet_apdu (hex_decode privateKey) (utf8_bytes pin)
        = [0x80, 0x20, 0x00, 0x00, of_nat (length payload)] @ payload"
      by (simp add: initWallet_apdu_def payload_def)
    have lp: "length_prefixed ([0x80, 0x20, 0x00, 0x00, of_nat (length payload)] @ payload)"
      using unat_of_nat_byte [OF n] by (simp add: length_prefixed_def)
    have w: "snd (initWallet tr origin timeout privateKey pin w)
        = snd (sendAPDU tr origin ([0x80, 0x20, 0x00, 0x00, of_nat (length payload)] @ payload) timeout w)"
      using True by (simp add: initWallet_def Let_def snd_andThen_pure frame)
    from sendAPDU_one_trip [of tr origin "[0x80, 0x20, 0x00, 0x00, of_nat (length payload)] @ payload" timeout w]
    obtain reply where "trips (snd (initWallet tr origin timeout privateKey pin w))
                  = trips w @ [([signRequest origin
                                   ([0x80, 0x20, 0x00, 0x00, of_nat (length payload)] @ payload)],
                                timeout, reply)]"
      unfolding w by blast
    then have "\<exists>reply payload.
              payload = of_nat (length (utf8_bytes pin)) # utf8_bytes pin @ hex_decode privateKey
              \<and> length payload < 256
              \<and> length_prefixed ([0x80, 0x20, 0x00, 0x00, of_nat (length payload)] @ payload)
              \<and> trips (snd (initWallet tr origin timeout privateKey pin w))
                  = trips w @ [([signRequest origin
                                   ([0x80, 0x20, 0x00, 0x00, of_nat (length payload)] @ payload)],
                                timeout, reply)]"
      using n lp payload_def by blast
    then show ?thesis
      unfolding if_P [OF True] .
  qed
  have verify: "if 4 \<le> length (utf8_bytes pin) \<and> length (utf8_bytes pin) \<le> 32
       then \<exists>replies payload.
              payload = utf8_bytes pin
              \<and> length payload < 256
              \<and> length_prefixed ([0x80, 0x22, 0x00, 0x00, of_nat (length payload)] @ payload)
              \<and> replies \<noteq> [] \<and> length replies \<le> 2
              \<and> (length replies = 2 \<longleftrightarrow> sendAPDU_settle (hd replies) = Inr [0x69, 0x82])
              \<and> trips (snd (verifyPin tr origin timeout pin w))
                  = trips w @ map (\<lambda>(apdu, reply). ([signRequest origin apdu], timeout, reply))
                      (zip [[0x80, 0x22, 0x00, 0x00, of_nat (length payload)] @ payload,
                            [0x80, 0x22, 0x80, 0x00]] replies)
       else trips (snd (verifyPin tr origin timeout pin w)) = trips w"
  proof (cases "4 \<le> length (utf8_bytes pin) \<and> length (utf8_bytes pin) \<le> 32")
    case False
    then show ?thesis by (auto simp: verifyPin_def Let_def)
  next
    case True
    define payload where "payload = utf8_bytes pin"
    define apdu where "apdu = [0x80, 0x22, 0x00, 0x00, of_nat (length payload)] @ payload"
    have n: "length payload < 256" using True by (simp add: payload_def)
    have lp: "length_prefixed ([0x80, 0x22, 0x00, 0x00, of_nat (length payload)] @ payload)"
      using unat_of_nat_byte [OF n] by (simp add: length_prefixed_def)
    obtain outcome w1 where send: "sendAPDU tr origin apdu timeout w = (outcome, w1)"
      by force
    from sendAPDU_trips [OF send] obtain reply
      where t1: "trips w1 = trips w @ [([signRequest origin apdu], timeout, reply)]"
        and o1: "sendAPDU_settle reply = outcome"
      by metis
    have v: "verifyPin tr origin timeout pin w
        = andThen (outcome, w1) (verifyPin_response tr origin timeout)"
      using True send by (simp add: verifyPin_def Let_def verifyPin_apdu_def apdu_def payload_def)
    have "\<exists>replies. replies \<noteq> [] \<and> length replies \<le> 2
              \<and> (length replies = 2 \<longleftrightarrow> sendAPDU_settle (hd replies) = Inr [0x69, 0x82])
              \<and> trips (snd (verifyPin tr origin timeout pin w))
                  = trips w @ map (\<lambda>(apdu, reply). ([signRequest origin apdu], timeout, reply))
                      (zip [apdu, [0x80, 0x22, 0x80, 0x00]] replies)"
    proof (cases "outcome = Inr [0x69, 0x82]")
      case True
      then have "snd (verifyPin tr origin timeout pin w) = snd (getPinTriesLeft tr origin timeout w1)"
        by (simp add: v andThen_def verifyPin_response_world)
      with tries [of w1] obtain reply2
        where "trips (snd (verifyPin tr origin timeout pin w))
                 = trips w1 @ [([signRequest origin [0x80, 0x22, 0x80, 0x00]], timeout, reply2)]"
        by auto
      then show ?thesis
        using True t1 o1 by (intro exI [of _ "[reply, reply2]"]) simp
    next
      case False
      have "snd (verifyPin tr origin timeout pin w) = w1"
      proof (cases outcome)
        case (Inl err)
        then show ?thesis by (simp add: v andThen_def)
      next
        case (Inr response)
        then show ?thesis using False by (simp add: v andThen_def verifyPin_response_world)
      qed
      then show ?thesis
        using False t1 o1 by (intro exI [of _ "[reply]"]) simp
    qed
    then have "\<exists>replies payload.
              payload = utf8_bytes pin
              \<and> length payload < 256
              \<and> length_prefixed ([0x80, 0x22, 0x00, 0x00, of_nat (length payload)] @ payload)
              \<and> replies \<noteq> [] \<and> length replies \<le> 2
              \<and> (length replies = 2 \<longleftrightarrow> sendAPDU_settle (hd replies) = Inr [0x69, 0x82])
              \<and> trips (snd (verifyPin tr origin timeout pin w))
                  = trips w @ map (\<lambda>(apdu, reply). ([signRequest origin apdu], timeout, reply))
                      (zip [[0x80, 0x22, 0x00, 0x00, of_nat (length payload)] @ payload,
                            [0x80, 0x22, 0x80, 0x00]] replies)"
      using n lp payload_def unfolding apdu_def by blast
    then show ?thesis
      unfolding if_P [OF True] .
  qed
  have sign: "\<exists>res w' apdus replies.
          signData tr origin timeout dataToSign w = Some (res, w')
        \<and> signData_loop 0 (hex_decode dataToSign) [] = Some apdus
        \<and> length replies \<le> length apdus + 1
        \<and> trips w' = trips w @ map (\<lambda>(apdu, reply). ([signRequest origin apdu], timeout, reply))
                                   (zip (apdus @ [[0x80, 0xF2, 0x02, 0x00]]) replies)
        \<and> (\<forall>apdu \<in> set apdus. length_prefixed apdu \<and> take 2 apdu = [0x80, 0xF2])"
  proof -
    define apdus where "apdus = map (chunk_frame (hex_decode dataToSign)) [0..<(length (hex_decode dataToSign) + 7) div 8]"
    from signData_run [OF apdus_def, of tr origin timeout w] obtain res w' replies where
      sd: "signData tr origin timeout dataToSign w = Some (res, w')"
      and len: "length replies \<le> length apdus + 1"
      and tr: "trips w' = trips w @ map (\<lambda>(apdu, reply). ([signRequest origin apdu], timeout, reply))
                               (zip (apdus @ [signData_finalize_apdu]) replies)"
      by blast
    have loop: "signData_loop 0 (hex_decode dataToSign) [] = Some apdus"
      by (simp add: signData_loop_total apdus_def)
    have "take 2 (chunk_frame raw i) = [0x80, 0xF2]" for raw i
      by (simp add: chunk_frame_def)
    then have shape: "\<forall>apdu \<in> set apdus. length_prefixed apdu \<and> take 2 apdu = [0x80, 0xF2]"
      using length_prefixed_chunk_frame by (auto simp: apdus_def)
    show ?thesis
      using sd loop len tr shape unfolding signData_finalize_apdu_def
      by (intro exI [of _ res] exI [of _ w'] exI [of _ apdus] exI [of _ replies]) simp
  qed
  show ?thesis
    using info key tries [of w] wipe random init verify sign by (intro conjI)
qed

theorem command_frames_sent_witness:
  "trips (snd (initWallet scripted ''https://wallet.example'' 30
                 ''1111111111111111111111111111111111111111111111111111111111111111''
                 ''1234'' \<lparr>device = [answer [0x69, 0x82], answer [0x63, 0xC2]], trips = []\<rparr>))
     = [([signRequest ''https://wallet.example''
         [0x80, 0x20, 0x00, 0x00, 0x25, 0x04, 0x31, 0x32, 0x33, 0x34,
          0x11, 0x11, 0x11, 0x11, 0x11, 0x11, 0x11, 0x11,
          0x11, 0x11, 0x11, 0x11, 0x11, 0x11, 0x11, 0x11,
          0x11, 0x11, 0x11, 0x11, 0x11, 0x11, 0x11, 0x11,
          0x11, 0x11, 0x11, 0x11, 0x11, 0x11, 0x11, 0x11]],
         30, answer [0x69, 0x82])]
   \<and> length_prefixed
         [0x80, 0x20, 0x00, 0x00, 0x25, 0x04, 0x31, 0x32, 0x33, 0x34,
          0x11, 0x11, 0x11, 0x11, 0x11, 0x11, 0x11, 0x11,
          0x11, 0x11, 0x11, 0x11, 0x11, 0x11, 0x11, 0x11,
          0x11, 0x11, 0x11, 0x11, 0x11, 0x11, 0x11, 0x11,
          0x11, 0x11, 0x11, 0x11, 0x11, 0x11, 0x11, 0x11]
   \<and> trips (snd (verifyPin scripted ''https://wallet.example'' 30 ''1234'' \<lparr>device = [answer [0x69, 0x82], answer [0x63, 0xC2]], trips = []\<rparr>))
     = [([signRequest ''https://wallet.example'' [0x80, 0x22, 0x00, 0x00, 0x04, 0x31, 0x32, 0x33, 0x34]],
         30, answer [0x69, 0x82]),
        ([signRequest ''https://wallet.example'' [0x80, 0x22, 0x80, 0x00]],
         30, answer [0x63, 0xC2])]
   \<and> length_prefixed [0x80, 0x22, 0x00, 0x00, 0x04, 0x31, 0x32, 0x33, 0x34]
   \<and> trips (snd (getRandom scripted ''https://wallet.example'' 30 16 \<lparr>device = [answer [0x69, 0x82], answer [0x63, 0xC2]], trips = []\<rparr>))
     = [([signRequest ''https://wallet.example'' [0x80, 0xC0, 0x00, 0x00, 0x10]],
         30, answer [0x69, 0x82])]
   \<and> trips (snd (wipeoutWallet scripted ''https://wallet.example'' 30 \<lparr>device = [answer [0x69, 0x82], answer [0x63, 0xC2]], trips = []\<rparr>))
     = [([signRequest ''https://wallet.example'' [0x80, 0xF0, 0x00, 0x00, 0x00]],
         30, answer [0x69, 0x82])]"
proof -
  have key: "hex_decode ''1111111111111111111111111111111111111111111111111111111111111111'' = replicate 32 0x11"
    by (simp add: hex_value_def numeral_eq_Suc)
  have pin: "utf8_bytes ''1234'' = [0x31, 0x32, 0x33, 0x34]"
    by (simp add: utf8_bytes_def)
  have frame: "initWallet_apdu (replicate 32 0x11) [0x31, 0x32, 0x33, 0x34]
      = [0x80, 0x20, 0x00, 0x00, 0x25, 0x04, 0x31, 0x32, 0x33, 0x34,
          0x11, 0x11, 0x11, 0x11, 0x11, 0x11, 0x11, 0x11,
          0x11, 0x11, 0x11, 0x11, 0x11, 0x11, 0x11, 0x11,
          0x11, 0x11, 0x11, 0x11, 0x11, 0x11, 0x11, 0x11,
          0x11, 0x11, 0x11, 0x11, 0x11, 0x11, 0x11, 0x11]"
    by (simp add: initWallet_apdu_def numeral_eq_Suc)
  have init: "trips (snd (initWallet scripted ''https://wallet.example'' 30
                 ''1111111111111111111111111111111111111111111111111111111111111111''
                 ''1234'' \<lparr>device = [answer [0x69, 0x82], answer [0x63, 0xC2]], trips = []\<rparr>))
     = [([signRequest ''https://wallet.example''
         [0x80, 0x20, 0x00, 0x00, 0x25, 0x04, 0x31, 0x32, 0x33, 0x34,
          0x11, 0x11, 0x11, 0x11, 0x11, 0x11, 0x11, 0x11,
          0x11, 0x11, 0x11, 0x11, 0x11, 0x11, 0x11, 0x11,
          0x11, 0x11, 0x11, 0x11, 0x11, 0x11, 0x11, 0x11,
          0x11, 0x11, 0x11, 0x11, 0x11, 0x11, 0x11, 0x11]],
         30, answer [0x69, 0x82])]"
    unfolding initWallet_def key pin
    by (simp add: Let_def frame snd_andThen_pure sendAPDU_scripted)
  have lp_init: "length_prefixed
         [0x80, 0x20, 0x00, 0x00, 0x25, 0x04, 0x31, 0x32, 0x33, 0x34,
          0x11, 0x11, 0x11, 0x11, 0x11, 0x11, 0x11, 0x11,
          0x11, 0x11, 0x11, 0x11, 0x11, 0x11, 0x11, 0x11,
          0x11, 0x11, 0x11, 0x11, 0x11, 0x11, 0x11, 0x11,
          0x11, 0x11, 0x11, 0x11, 0x11, 0x11, 0x11, 0x11]"
    by (simp add: length_prefixed_def)
  have verify: "trips (snd (verifyPin scripted ''https://wallet.example'' 30 ''1234'' \<lparr>device = [answer [0x69, 0x82], answer [0x63, 0xC2]], trips = []\<rparr>))
     = [([signRequest ''https://wallet.example'' [0x80, 0x22, 0x00, 0x00, 0x04, 0x31, 0x32, 0x33, 0x34]],
         30, answer [0x69, 0x82]),
        ([signRequest ''https://wallet.example'' [0x80, 0x22, 0x80, 0x00]],
         30, answer [0x63, 0xC2])]"
    unfolding verifyPin_def pin
    by (simp add: Let_def verifyPin_apdu_def andThen_def sendAPDU_scripted
        verifyPin_response_def buf_at_def getPinTriesLeft_def getPinTriesLeft_apdu_def
        getPinTriesLeft_response_def)
  have lp_verify: "length_prefixed [0x80, 0x22, 0x00, 0x00, 0x04, 0x31, 0x32, 0x33, 0x34]"
    by (simp add: length_prefixed_def)
  have random: "trips (snd (getRandom scripted ''https://wallet.example'' 30 16 \<lparr>device = [answer [0x69, 0x82], answer [0x63, 0xC2]], trips = []\<rparr>))
     = [([signRequest ''https://wallet.example'' [0x80, 0xC0, 0x00, 0x00, 0x10]],
         30, answer [0x69, 0x82])]"
    by (simp add: getRandom_def getRandom_apdu_def snd_andThen_pure sendAPDU_scripted)
  have wipe: "trips (snd (wipeoutWallet scripted ''https://wallet.example'' 30 \<lparr>device = [answer [0x69, 0x82], answer [0x63, 0xC2]], trips = []\<rparr>))
     = [([signRequest ''https://wallet.example'' [0x80, 0xF0, 0x00, 0x00, 0x00]],
         30, answer [0x69, 0x82])]"
    by (simp add: wipeoutWallet_def wipeoutWallet_apdu_def snd_andThen_pure sendAPDU_scripted)
  show ?thesis
    using command_frames_sent [of scripted "''https://wallet.example''" 30
        "\<lparr>device = [answer [0x69, 0x82], answer [0x63, 0xC2]], trips = []\<rparr>" 16
        "''1111111111111111111111111111111111111111111111111111111111111111''"
        "''1234''" "''000102030405060708''"]
    by (simp only: init lp_init verify lp_verify random wipe simp_thms)
qed

end
